theory Spec2Isabelle
  imports Complex_Main "HOL-Library.AList" "HOL-Library.Sublist"
begin

section \<open>Errors\<close>

text \<open>
  The exceptions raised by the package and by the pandas and Python operations it calls.
  \<open>DuplicateNameError\<close> carries the list of factor names that the message prints.
\<close>

datatype error =
    AttributeError string
  | KeyError string
  | IndexError
  | TypeError
  | ValueError string
  | DuplicateNameError "string list"

section \<open>BaseFactor\<close>

text \<open>
  \<open>base_factor.py\<close>. A feature dictionary \<open>Dict[str, List[str]]\<close> is an association
  list from feature name to value labels. A dictionary is truthy when it is not empty.
\<close>

type_synonym features = "(string \<times> string list) list"

record base_factor =
  col_name :: string
  features :: features
  date_col_name :: string
  apply_to_all :: bool

definition declared :: "features option \<Rightarrow> features" where
  "declared fo = (case fo of None \<Rightarrow> [] | Some fs \<Rightarrow> fs)"

definition base_factor_init ::
  "string \<Rightarrow> features option \<Rightarrow> string \<Rightarrow> bool \<Rightarrow> error + base_factor" where
  "base_factor_init c fo d a =
     (let fs = declared fo in
      if a \<and> fs \<noteq> []
      then Inl (AttributeError ''Factor cannot apply to all features, while specifying a feature.'')
      else Inr \<lparr>col_name = c, features = fs, date_col_name = d, apply_to_all = a\<rparr>)"

section \<open>WhiteNoise: construction\<close>

text \<open>
  \<open>white_noise.py\<close>, \<open>WhiteNoise.__init__\<close>. \<open>stdev_factor\<close> is a float or \<open>None\<close>
  (truthy when it is a non-zero number), \<open>feature_values\<close> an optional dictionary from
  feature name to a dictionary from label to standard deviation (truthy when present and
  not empty). The feature dictionary handed to \<open>BaseFactor\<close> is \<open>feature_values\<close> itself;
  iterating its inner dictionaries yields their keys, the labels.
\<close>

type_synonym noise_values = "(string \<times> (string \<times> real) list) list"

record white_noise = base_factor +
  stdev_factor :: "real option"
  wn_feature_values :: "noise_values option"

definition truthy_float :: "real option \<Rightarrow> bool" where
  "truthy_float x = (case x of None \<Rightarrow> False | Some v \<Rightarrow> v \<noteq> 0)"

definition truthy_dict :: "('k \<times> 'v) list option \<Rightarrow> bool" where
  "truthy_dict d = (case d of None \<Rightarrow> False | Some kvs \<Rightarrow> kvs \<noteq> [])"

definition default_stdev_factor :: "real option" where
  "default_stdev_factor = Some (5 / 100)"

definition labels_of :: "noise_values \<Rightarrow> features" where
  "labels_of fv = map (\<lambda>(k, d). (k, map fst d)) fv"

definition white_noise_of :: "base_factor \<Rightarrow> real option \<Rightarrow> noise_values option \<Rightarrow> white_noise" where
  "white_noise_of b sd fv =
     \<lparr>col_name = col_name b, features = features b, date_col_name = date_col_name b,
      apply_to_all = apply_to_all b, stdev_factor = sd, wn_feature_values = fv\<rparr>"

definition white_noise_init ::
  "real option \<Rightarrow> noise_values option \<Rightarrow> string \<Rightarrow> error + white_noise" where
  "white_noise_init sd fv c =
     (if (truthy_float sd \<and> truthy_dict fv) \<or> \<not> (truthy_float sd \<or> truthy_dict fv)
      then Inl (AttributeError ''Either set `stdev_factor` or `feature_values`'')
      else if truthy_dict fv
      then (if length (the fv) > 1
            then Inl (AttributeError ''WhiteNoise, can only set feature values on one feature'')
            else (case base_factor_init c (Some (labels_of (the fv))) ''date'' False of
                    Inl e \<Rightarrow> Inl e
                  | Inr b \<Rightarrow> Inr (white_noise_of b sd fv)))
      else (case base_factor_init c None ''date'' True of
              Inl e \<Rightarrow> Inl e
            | Inr b \<Rightarrow> Inr (white_noise_of b sd fv)))"

section \<open>HolidayFactor: overlap resolution\<close>

text \<open>
  \<open>holiday_factor.py\<close>, the local function \<open>clean_holiday_tuples\<close>: one pass over the
  (date, name) pairs with the set of dates already seen and the output list.
\<close>

fun clean_loop :: "'a set \<Rightarrow> ('a \<times> 'b) list \<Rightarrow> ('a \<times> 'b) list \<Rightarrow> ('a \<times> 'b) list" where
  "clean_loop visited output [] = output"
| "clean_loop visited output ((a, b) # rest) =
     (if a \<notin> visited then clean_loop (insert a visited) (output @ [(a, b)]) rest
      else clean_loop visited output rest)"

definition clean_holiday_tuples :: "('a \<times> 'b) list \<Rightarrow> ('a \<times> 'b) list" where
  "clean_holiday_tuples input_tuples = clean_loop {} [] input_tuples"

text \<open>
  The specification's wording, as a second definition: the pairs, in their original
  order, whose date is carried by no earlier pair.
\<close>

definition first_seen_pairs :: "('a \<times> 'b) list \<Rightarrow> ('a \<times> 'b) list" where
  "first_seen_pairs xs =
     map (\<lambda>i. xs ! i) (filter (\<lambda>i. fst (xs ! i) \<notin> fst ` set (take i xs)) [0..<length xs])"

section \<open>Tables\<close>

text \<open>
  A pandas \<open>DataFrame\<close> is its list of column labels and its rows in order, each row a
  record from column label to cell (an association list, read with \<open>map_of\<close>). A cell
  is a timestamp, a feature label, a number or the missing value \<open>NaN\<close>. Timestamps
  are whole days counted from 1970-01-01 (the package works at daily granularity), and
  Python floats are idealised as reals: every formula keeps the order of operations of
  the source. The pandas operations are modelled on frames whose column labels are
  unique, after their documented behaviour (pandas 1.2, the version the package pins).

  \<open>bind_err\<close> and \<open>sequence\<close> propagate the first exception raised; \<open>get_item\<close> is
  \<open>d[k]\<close>, which raises \<open>KeyError\<close> on a missing key.
\<close>

type_synonym timestamp = int

datatype cell = Date timestamp | Label string | Num real | NaN

type_synonym row = "(string \<times> cell) list"

record dataframe =
  columns :: "string list"
  rows :: "row list"

primrec bind_err :: "error + 'a \<Rightarrow> ('a \<Rightarrow> error + 'b) \<Rightarrow> error + 'b" where
  "bind_err (Inl e) f = Inl e"
| "bind_err (Inr v) f = f v"

fun sequence :: "(error + 'a) list \<Rightarrow> error + 'a list" where
  "sequence [] = Inr []"
| "sequence (x # xs) = bind_err x (\<lambda>v. bind_err (sequence xs) (\<lambda>vs. Inr (v # vs)))"

definition get_item :: "('k \<times> 'v) list \<Rightarrow> 'k \<Rightarrow> string \<Rightarrow> error + 'v" where
  "get_item d k shown = (case map_of d k of None \<Rightarrow> Inl (KeyError shown) | Some v \<Rightarrow> Inr v)"

definition cell_date :: "row \<Rightarrow> string \<Rightarrow> error + timestamp" where
  "cell_date r c =
     bind_err (get_item r c c) (\<lambda>x. case x of Date d \<Rightarrow> Inr d | _ \<Rightarrow> Inl TypeError)"

definition cell_num :: "row \<Rightarrow> string \<Rightarrow> error + real" where
  "cell_num r c =
     bind_err (get_item r c c) (\<lambda>x. case x of Num v \<Rightarrow> Inr v | _ \<Rightarrow> Inl TypeError)"

text \<open>
  \<open>df[c] = vs\<close> replaces the column \<open>c\<close> or appends it; \<open>df.drop(cs, axis=1)\<close> raises
  \<open>KeyError\<close> when a label is missing; \<open>utils.get_cartesian_product\<close> (a merge on a
  constant key) pairs every row of the first frame with every row of the second, the
  first frame's rows varying slowest.
\<close>

definition add_label :: "string \<Rightarrow> string list \<Rightarrow> string list" where
  "add_label c cs = (if c \<in> set cs then cs else cs @ [c])"

definition set_column :: "string \<Rightarrow> cell list \<Rightarrow> dataframe \<Rightarrow> dataframe" where
  "set_column c vs df =
     \<lparr>columns = add_label c (columns df),
      rows = map (\<lambda>(r, v). AList.update c v r) (zip (rows df) vs)\<rparr>"

definition drop_columns :: "string list \<Rightarrow> dataframe \<Rightarrow> error + dataframe" where
  "drop_columns cs df =
     (case filter (\<lambda>c. c \<notin> set (columns df)) cs of
        c # _ \<Rightarrow> Inl (KeyError c)
      | [] \<Rightarrow> Inr \<lparr>columns = filter (\<lambda>c. c \<notin> set cs) (columns df),
                   rows = map (filter (\<lambda>(c, v). c \<notin> set cs)) (rows df)\<rparr>)"

definition get_cartesian_product :: "dataframe \<Rightarrow> dataframe \<Rightarrow> dataframe" where
  "get_cartesian_product df1 df2 =
     \<lparr>columns = columns df1 @ columns df2,
      rows = concat (map (\<lambda>l. map (\<lambda>r. l @ r) (rows df2)) (rows df1))\<rparr>"

section \<open>Date ranges\<close>

text \<open>
  \<open>BaseFactor.get_datetime_index\<close>: \<open>pandas.date_range(start, end, periods)\<close> at its
  default daily frequency. With an end date the range holds both end points; without one
  it holds 50 days from the start. \<open>to_frame\<close> is \<open>.to_frame(index=False, name=...)\<close>.
\<close>

definition get_datetime_index :: "timestamp \<Rightarrow> timestamp option \<Rightarrow> timestamp list" where
  "get_datetime_index start_date end_date =
     (case end_date of
        None \<Rightarrow> map (\<lambda>k. start_date + int k) [0..<50]
      | Some e \<Rightarrow> [start_date..e])"

definition to_frame :: "string \<Rightarrow> timestamp list \<Rightarrow> dataframe" where
  "to_frame name ds = \<lparr>columns = [name], rows = map (\<lambda>d. [(name, Date d)]) ds\<rparr>"

section \<open>LinearTrend\<close>

text \<open>
  \<open>linear_trend.py\<close>. \<open>feature_values\<close> maps each label to a dictionary with the keys
  \<open>coef\<close> and \<open>offset\<close>. In \<open>generate\<close>, \<open>dr.iloc[0]\<close> raises \<open>IndexError\<close> on an
  empty range, arithmetic on \<open>None\<close> raises \<open>TypeError\<close>, and \<open>dr.join(df)\<close> raises
  \<open>ValueError\<close> when the two frames share a column label.
\<close>

type_synonym trend_values = "(string \<times> (string \<times> real) list) list"

record linear_trend = base_factor +
  coef :: "real option"
  offset :: "real option"
  lt_feature :: "string option"
  lt_feature_values :: "trend_values option"

definition truthy_str :: "string option \<Rightarrow> bool" where
  "truthy_str s = (case s of None \<Rightarrow> False | Some x \<Rightarrow> x \<noteq> [])"

definition incomplete :: "(string \<times> real) list \<Rightarrow> bool" where
  "incomplete v = (map_of v ''coef'' = None \<or> map_of v ''offset'' = None)"

definition linear_trend_of ::
  "base_factor \<Rightarrow> real option \<Rightarrow> real option \<Rightarrow> string option \<Rightarrow> trend_values option \<Rightarrow> linear_trend" where
  "linear_trend_of b c off feat fv =
     \<lparr>col_name = col_name b, features = features b, date_col_name = date_col_name b,
      apply_to_all = apply_to_all b, coef = c, offset = off, lt_feature = feat,
      lt_feature_values = fv\<rparr>"

definition linear_trend_init ::
  "real option \<Rightarrow> real option \<Rightarrow> string option \<Rightarrow> trend_values option \<Rightarrow> string
     \<Rightarrow> error + linear_trend" where
  "linear_trend_init c off feat fv name =
     (if \<not> ((c \<noteq> None \<and> off \<noteq> None \<and> feat = None \<and> fv = None)
             \<or> (c = None \<and> off = None \<and> feat \<noteq> None \<and> fv \<noteq> None))
      then Inl (AttributeError ''Either set `coef` and `offset` or `features` and `feature_values`'')
      else if truthy_str feat
      then (if \<exists>v \<in> set (map snd (the fv)). incomplete v
            then Inl (AttributeError ''Each feature value should have a `coef` and an `offset`'')
            else bind_err (base_factor_init name (Some [(the feat, map fst (the fv))]) ''date'' False)
                   (\<lambda>b. Inr (linear_trend_of b c off feat fv)))
      else bind_err (base_factor_init name None ''date'' False)
             (\<lambda>b. Inr (linear_trend_of b c off feat fv)))"

definition label_of :: "string option \<Rightarrow> string" where
  "label_of s = (case s of None \<Rightarrow> ''None'' | Some x \<Rightarrow> x)"

definition get_factor_col :: "string \<Rightarrow> timestamp \<Rightarrow> nat \<Rightarrow> row \<Rightarrow> error + cell" where
  "get_factor_col date_col start_date_ts n r =
     bind_err (cell_date r date_col) (\<lambda>d.
     bind_err (cell_num r ''coef'') (\<lambda>c.
     bind_err (cell_num r ''offset'') (\<lambda>off.
       Inr (Num (c / real n * real_of_int (d - start_date_ts) + 1 + off)))))"

definition trend_frame :: "string \<Rightarrow> trend_values \<Rightarrow> error + dataframe" where
  "trend_frame feat fv =
     bind_err (sequence (map (\<lambda>v. get_item v ''coef'' ''coef'') (map snd fv))) (\<lambda>cs.
     bind_err (sequence (map (\<lambda>v. get_item v ''offset'' ''offset'') (map snd fv))) (\<lambda>offs.
       Inr \<lparr>columns = [feat, ''coef'', ''offset''],
            rows = map (\<lambda>(k, c, off). [(feat, Label k), (''coef'', Num c), (''offset'', Num off)])
                     (zip (map fst fv) (zip cs offs))\<rparr>))"

definition linear_trend_generate ::
  "linear_trend \<Rightarrow> timestamp \<Rightarrow> timestamp option \<Rightarrow> error + dataframe" where
  "linear_trend_generate lt start_date end_date =
     (let dr = get_datetime_index start_date end_date;
          n = length dr
      in case dr of
           [] \<Rightarrow> Inl IndexError
         | start_date_ts # _ \<Rightarrow>
             if truthy_dict (lt_feature_values lt)
             then bind_err (trend_frame (label_of (lt_feature lt)) (the (lt_feature_values lt))) (\<lambda>df.
                  let factor_df = get_cartesian_product (to_frame (date_col_name lt) dr) df in
                  bind_err (sequence (map (get_factor_col (date_col_name lt) start_date_ts n)
                                        (rows factor_df))) (\<lambda>vs.
                  drop_columns [''coef'', ''offset''] (set_column (col_name lt) vs factor_df)))
             else (case (coef lt, offset lt) of
                     (Some c, Some off) \<Rightarrow>
                       if col_name lt = date_col_name lt
                       then Inl (ValueError ''columns overlap but no suffix specified'')
                       else Inr \<lparr>columns = [date_col_name lt, col_name lt],
                                 rows = map (\<lambda>(t, d). [(date_col_name lt, Date d),
                                                         (col_name lt, Num (c / real n * real t + 1 + off))])
                                          (zip [0..<n] dr)\<rparr>
                   | _ \<Rightarrow> Inl TypeError))"

section \<open>WeekdayFactor\<close>

text \<open>
  \<open>weekday_factor.py\<close>. Day 0 (1970-01-01) is a Thursday, so the day of the week of day
  \<open>d\<close> (Monday = 0) is \<open>(d + 3) mod 7\<close>. \<open>select_rows\<close> is boolean indexing on a
  comparison of the date column with timestamps. The final
  \<open>reset_index().drop(columns="index")\<close> renumbers the rows and changes no cell.
\<close>

record weekday_factor = base_factor +
  factor_values :: "(int \<times> real) list"
  intensity_scale :: real

definition default_factor_values :: "(int \<times> real) list" where
  "default_factor_values = [(4, 115 / 100), (5, 13 / 10), (6, 13 / 10)]"

definition weekday_factor_init ::
  "(int \<times> real) list option \<Rightarrow> string \<Rightarrow> real \<Rightarrow> error + weekday_factor" where
  "weekday_factor_init fvo name scale =
     (let fv = (case fvo of None \<Rightarrow> default_factor_values | Some x \<Rightarrow> x) in
      bind_err (base_factor_init name None ''date'' False) (\<lambda>b.
        Inr \<lparr>col_name = col_name b, features = features b, date_col_name = date_col_name b,
             apply_to_all = apply_to_all b, factor_values = fv, intensity_scale = scale\<rparr>))"

definition dayofweek :: "timestamp \<Rightarrow> int" where
  "dayofweek d = (d + 3) mod 7"

definition weekday_value :: "weekday_factor \<Rightarrow> int \<Rightarrow> real" where
  "weekday_value w day_number =
     (case map_of (factor_values w) day_number of None \<Rightarrow> 1 | Some v \<Rightarrow> v) * intensity_scale w"

definition select_rows :: "string \<Rightarrow> (timestamp \<Rightarrow> bool) \<Rightarrow> dataframe \<Rightarrow> error + dataframe" where
  "select_rows c keep df =
     (if c \<notin> set (columns df) then Inl (KeyError c)
      else bind_err (sequence (map (\<lambda>r. bind_err (cell_date r c) (\<lambda>d. Inr (r, keep d))) (rows df)))
             (\<lambda>ps. Inr \<lparr>columns = columns df, rows = map fst (filter snd ps)\<rparr>))"

definition weekday_factor_generate ::
  "weekday_factor \<Rightarrow> timestamp \<Rightarrow> timestamp option \<Rightarrow> error + dataframe" where
  "weekday_factor_generate w start_date end_date =
     (let dr = get_datetime_index start_date end_date;
          df0 = to_frame (date_col_name w) dr;
          df1 = set_column ''weekday'' (map (\<lambda>d. Num (of_int (dayofweek d))) dr) df0;
          df2 = set_column (col_name w) (map (\<lambda>d. Num (weekday_value w (dayofweek d))) dr) df1
      in bind_err (drop_columns [''weekday''] df2) (\<lambda>df.
         select_rows (date_col_name w)
           (\<lambda>d. case end_date of None \<Rightarrow> start_date \<le> d | Some e \<Rightarrow> start_date \<le> d \<and> d < e) df))"

section \<open>WhiteNoise: generation\<close>

text \<open>
  \<open>WhiteNoise.generate\<close>. The process-wide random source is the parameter \<open>z\<close>, the
  sequence of standard-normal samples; \<open>randn z n\<close> are the \<open>n\<close> samples of one call.
  In the per-feature-value branch the samples are stored in the column \<open>noise_1\<close>, the
  row function reads \<open>row["noise1"]\<close>, and the result of \<open>apply\<close> is passed to
  \<open>.drop("noise1", axis=1)\<close>, which finds nothing of that name either.
\<close>

definition randn :: "(nat \<Rightarrow> real) \<Rightarrow> nat \<Rightarrow> real list" where
  "randn z n = map z [0..<n]"

definition feature_frame :: "features \<Rightarrow> dataframe" where
  "feature_frame fs =
     \<lparr>columns = map fst fs,
      rows = map (\<lambda>ls. zip (map fst fs) (map Label ls)) (product_lists (map snd fs))\<rparr>"

definition noise_factor_col :: "noise_values \<Rightarrow> string \<Rightarrow> row \<Rightarrow> error + cell" where
  "noise_factor_col fv feature r =
     bind_err (get_item fv feature feature) (\<lambda>stdevs.
     bind_err (get_item r feature feature) (\<lambda>c.
       case c of
         Label l \<Rightarrow>
           bind_err (get_item stdevs l l) (\<lambda>stdev.
           bind_err (cell_num r ''noise1'') (\<lambda>x. Inr (Num (stdev * x + 1))))
       | _ \<Rightarrow> Inl (KeyError ''label'')))"

definition white_noise_generate ::
  "white_noise \<Rightarrow> (nat \<Rightarrow> real) \<Rightarrow> timestamp \<Rightarrow> timestamp option \<Rightarrow> error + dataframe" where
  "white_noise_generate wn z start_date end_date =
     (let dr = get_datetime_index start_date end_date in
      if features wn \<noteq> []
      then (let factor_df = get_cartesian_product (to_frame (date_col_name wn) dr)
                              (feature_frame (features wn));
                n = length (rows factor_df)
            in if truthy_dict (wn_feature_values wn)
               then (let feature = fst (hd (the (wn_feature_values wn)));
                         noisy = set_column ''noise_1'' (map Num (randn z n)) factor_df
                     in bind_err (sequence (map (noise_factor_col (the (wn_feature_values wn)) feature)
                                              (rows noisy)))
                          (\<lambda>vs. if vs = [] then Inl (KeyError ''noise1'')
                                else Inl (ValueError ''No axis named 1 for object type Series'')))
               else (case stdev_factor wn of
                       None \<Rightarrow> Inl TypeError
                     | Some s \<Rightarrow>
                         Inr (set_column (col_name wn) (map (\<lambda>x. Num (s * x + 1)) (randn z n))
                                factor_df)))
      else (case stdev_factor wn of
              None \<Rightarrow> Inl TypeError
            | Some s \<Rightarrow>
                if col_name wn = date_col_name wn
                then Inl (ValueError ''columns overlap but no suffix specified'')
                else Inr \<lparr>columns = [date_col_name wn, col_name wn],
                          rows = map (\<lambda>(x, d). [(date_col_name wn, Date d),
                                                  (col_name wn, Num (s * x + 1))])
                                   (zip (randn z (length dr)) dr)\<rparr>))"

section \<open>Merging\<close>

text \<open>
  \<open>left.merge(right, how="left", on=keys)\<close>: \<open>KeyError\<close> when a key is not a column of
  both frames; columns other than the keys that both frames carry get the suffixes
  \<open>_x\<close> and \<open>_y\<close>; every left row is kept, in order, once per right row with equal
  keys, and once with \<open>NaN\<close> in the right frame's columns when there is none.
  \<open>fillna(v)\<close> replaces every \<open>NaN\<close> of the frame.
\<close>

definition key_of :: "string list \<Rightarrow> row \<Rightarrow> cell option list" where
  "key_of on r = map (map_of r) on"

definition overlap :: "string list \<Rightarrow> dataframe \<Rightarrow> dataframe \<Rightarrow> string list" where
  "overlap on l r = filter (\<lambda>c. c \<notin> set on \<and> c \<in> set (columns r)) (columns l)"

definition suffixed :: "string list \<Rightarrow> string \<Rightarrow> string \<Rightarrow> string" where
  "suffixed ov sfx c = (if c \<in> set ov then c @ sfx else c)"

definition left_part :: "string list \<Rightarrow> row \<Rightarrow> row" where
  "left_part ov l = map (\<lambda>(c, v). (suffixed ov ''_x'' c, v)) l"

definition right_part :: "string list \<Rightarrow> string list \<Rightarrow> row \<Rightarrow> row" where
  "right_part on ov r = map (\<lambda>(c, v). (suffixed ov ''_y'' c, v)) (filter (\<lambda>(c, v). c \<notin> set on) r)"

definition missing_part :: "string list \<Rightarrow> string list \<Rightarrow> string list \<Rightarrow> row" where
  "missing_part on ov cs = map (\<lambda>c. (suffixed ov ''_y'' c, NaN)) (filter (\<lambda>c. c \<notin> set on) cs)"

definition join_row :: "string list \<Rightarrow> string list \<Rightarrow> dataframe \<Rightarrow> row \<Rightarrow> row list" where
  "join_row on ov r l =
     (case filter (\<lambda>x. key_of on x = key_of on l) (rows r) of
        [] \<Rightarrow> [left_part ov l @ missing_part on ov (columns r)]
      | ms \<Rightarrow> map (\<lambda>x. left_part ov l @ right_part on ov x) ms)"

definition merge_left :: "dataframe \<Rightarrow> dataframe \<Rightarrow> string list \<Rightarrow> error + dataframe" where
  "merge_left l r on =
     (case filter (\<lambda>k. k \<notin> set (columns r) \<or> k \<notin> set (columns l)) on of
        k # _ \<Rightarrow> Inl (KeyError k)
      | [] \<Rightarrow>
          (let ov = overlap on l r in
           Inr \<lparr>columns = map (suffixed ov ''_x'') (columns l)
                          @ map (suffixed ov ''_y'') (filter (\<lambda>c. c \<notin> set on) (columns r)),
                rows = concat (map (join_row on ov r) (rows l))\<rparr>))"

definition fillna :: "cell \<Rightarrow> dataframe \<Rightarrow> dataframe" where
  "fillna v df =
     \<lparr>columns = columns df,
      rows = map (map (\<lambda>(c, x). (c, if x = NaN then v else x))) (rows df)\<rparr>"

text \<open>A frame without missing values, as every frame is after \<open>fillna\<close>.\<close>

definition nan_free :: "dataframe \<Rightarrow> bool" where
  "nan_free t = (\<forall>r \<in> set (rows t). NaN \<notin> snd ` set r)"

section \<open>Generator\<close>

text \<open>
  \<open>generator.py\<close>. A factor, as the engine sees it, is the \<open>BaseFactor\<close> fields and the
  abstract method \<open>generate\<close>: a function of the feature dictionary the factor holds when
  it is called and of the two dates. That it is a function is what makes a factor
  deterministic. The engine iterates over its factor collection in some order, here the
  order of the list. \<open>generate\<close> returns the result and the engine after the call: the
  loop rebinds the features of every factor marked \<open>apply_to_all\<close> before calling it, and
  the table is stored in \<open>ts\<close> only on success. The loop's \<open>df.rename(...)\<close> discards
  its result, so it changes nothing. \<open>date_range[0]\<close> raises \<open>IndexError\<close> on an empty
  range; a date range left at \<open>None\<close> raises \<open>TypeError\<close> in \<open>list(...)\<close>.
  \<open>prod(axis=1)\<close> skips \<open>NaN\<close>; multiplying cells that are not numbers raises
  \<open>TypeError\<close>.
\<close>

record factor = base_factor +
  generate_fn :: "features \<Rightarrow> timestamp \<Rightarrow> timestamp option \<Rightarrow> error + dataframe"

record generator =
  factors :: "factor list"
  engine_features :: features
  engine_date_range :: "timestamp list option"
  base_value :: real
  ts :: "dataframe option"

text \<open>
  The columns a factor's table is merged on, \<open>list(f.features.keys()) + ["date"]\<close>; the
  factors with the features they hold when the loop generates them; and the factor
  contract on the generated table: every row has a cell for every column, and the one
  column that is not a merge key is the factor's own column.
\<close>

definition merge_keys :: "factor \<Rightarrow> string list" where
  "merge_keys f = map fst (features f) @ [''date'']"

definition well_formed :: "dataframe \<Rightarrow> bool" where
  "well_formed t = (\<forall>r \<in> set (rows t). map fst r = columns t)"

definition obeys_contract :: "factor \<Rightarrow> dataframe \<Rightarrow> bool" where
  "obeys_contract f df =
     (well_formed df \<and> filter (\<lambda>c. c \<notin> set (merge_keys f)) (columns df) = [col_name f])"

definition skeleton :: "timestamp list \<Rightarrow> features \<Rightarrow> dataframe" where
  "skeleton dr fs =
     \<lparr>columns = ''date'' # map fst fs,
      rows = concat (map (\<lambda>d. map (\<lambda>ls. (''date'', Date d) # zip (map fst fs) (map Label ls))
                                 (product_lists (map snd fs))) dr)\<rparr>"

definition base_table :: "timestamp list \<Rightarrow> features \<Rightarrow> real \<Rightarrow> dataframe" where
  "base_table dr fs b =
     (let t0 = skeleton dr fs
      in set_column ''base_amount'' (replicate (length (rows t0)) (Num b)) t0)"

definition rebind :: "features \<Rightarrow> factor \<Rightarrow> factor" where
  "rebind fs f = (if apply_to_all f then f\<lparr>features := fs\<rparr> else f)"

definition bound_factors :: "generator \<Rightarrow> factor list" where
  "bound_factors g = map (rebind (engine_features g)) (factors g)"

fun merge_factors ::
  "features \<Rightarrow> timestamp list \<Rightarrow> dataframe \<Rightarrow> factor list \<Rightarrow> (error + dataframe) \<times> factor list" where
  "merge_factors fs dr t [] = (Inr t, [])"
| "merge_factors fs dr t (f # rest) =
     (let f' = rebind fs f in
      if dr = [] then (Inl IndexError, f' # rest)
      else (case generate_fn f' (features f') (hd dr) (Some (last dr)) of
              Inl e \<Rightarrow> (Inl e, f' # rest)
            | Inr df \<Rightarrow>
                (case merge_left t df (merge_keys f') of
                   Inl e \<Rightarrow> (Inl e, f' # rest)
                 | Inr m \<Rightarrow>
                     (let (res, rest') = merge_factors fs dr (fillna (Num 1) m) rest
                      in (res, f' # rest')))))"

fun prod_cells :: "cell list \<Rightarrow> error + real" where
  "prod_cells [] = Inr 1"
| "prod_cells (Num v # cs) = bind_err (prod_cells cs) (\<lambda>p. Inr (v * p))"
| "prod_cells (NaN # cs) = prod_cells cs"
| "prod_cells (_ # cs) = Inl TypeError"

definition row_prod :: "string list \<Rightarrow> row \<Rightarrow> error + cell" where
  "row_prod names r =
     bind_err (sequence (map (\<lambda>n. get_item r n n) names)) (\<lambda>cs.
     bind_err (prod_cells cs) (\<lambda>p. Inr (Num p)))"

fun mul_cells :: "cell \<Rightarrow> cell \<Rightarrow> error + cell" where
  "mul_cells (Num a) (Num b) = Inr (Num (a * b))"
| "mul_cells NaN (Num b) = Inr NaN"
| "mul_cells (Num a) NaN = Inr NaN"
| "mul_cells NaN NaN = Inr NaN"
| "mul_cells _ _ = Inl TypeError"

definition row_mul :: "string \<Rightarrow> string \<Rightarrow> row \<Rightarrow> error + cell" where
  "row_mul a b r =
     bind_err (get_item r a a) (\<lambda>x. bind_err (get_item r b b) (\<lambda>y. mul_cells x y))"

definition derive :: "string list \<Rightarrow> dataframe \<Rightarrow> error + dataframe" where
  "derive names t =
     (case filter (\<lambda>n. n \<notin> set (columns t)) names of
        n # _ \<Rightarrow> Inl (KeyError n)
      | [] \<Rightarrow>
          bind_err (sequence (map (row_prod names) (rows t))) (\<lambda>ps.
          let t1 = set_column ''total_factor'' ps t in
          if ''base_amount'' \<notin> set (columns t1) then Inl (KeyError ''base_amount'')
          else bind_err (sequence (map (row_mul ''total_factor'' ''base_amount'') (rows t1))) (\<lambda>vs.
               Inr (set_column ''value'' vs t1))))"

definition generate :: "generator \<Rightarrow> (error + dataframe) \<times> generator" where
  "generate g =
     (case engine_date_range g of
        None \<Rightarrow> (Inl TypeError, g)
      | Some dr \<Rightarrow>
          (let t1 = base_table dr (engine_features g) (base_value g);
               (res, fs') = merge_factors (engine_features g) dr t1 (factors g);
               g1 = g\<lparr>factors := fs'\<rparr>
           in case res of
                Inl e \<Rightarrow> (Inl e, g1)
              | Inr t2 \<Rightarrow>
                  (let factor_names = map col_name fs' in
                   if length factor_names \<noteq> card (set factor_names)
                   then (Inl (DuplicateNameError factor_names), g1)
                   else (case derive factor_names t2 of
                           Inl e \<Rightarrow> (Inl e, g1)
                         | Inr t3 \<Rightarrow> (Inr t3, g1\<lparr>ts := Some t3\<rparr>)))))"

definition linear_trend_factor :: "linear_trend \<Rightarrow> factor" where
  "linear_trend_factor lt =
     \<lparr>col_name = col_name lt, features = features lt, date_col_name = date_col_name lt,
      apply_to_all = apply_to_all lt, generate_fn = (\<lambda>fs. linear_trend_generate lt)\<rparr>"

definition weekday_factor_factor :: "weekday_factor \<Rightarrow> factor" where
  "weekday_factor_factor w =
     \<lparr>col_name = col_name w, features = features w, date_col_name = date_col_name w,
      apply_to_all = apply_to_all w, generate_fn = (\<lambda>fs. weekday_factor_generate w)\<rparr>"

section \<open>Example inputs\<close>




definition weekday_example :: weekday_factor where
  "weekday_example =
     \<lparr>col_name = ''weekend_trend_factor'', features = [], date_col_name = ''date'',
      apply_to_all = False, factor_values = default_factor_values, intensity_scale = 1\<rparr>"

definition noise_example_values :: noise_values where
  "noise_example_values = [(''my_feature'', [(''feature1'', 5 / 100), (''feature2'', 1 / 10)])]"

definition noise_example :: white_noise where
  "noise_example =
     \<lparr>col_name = ''white_noise'', features = [(''my_feature'', [''feature1'', ''feature2''])],
      date_col_name = ''date'', apply_to_all = False, stdev_factor = None,
      wn_feature_values = Some noise_example_values\<rparr>"

text \<open>
  Engines. \<open>product_engine_example\<close> is the scenario of \<open>tests/generator_test.py\<close> with a
  linear trend in place of the sinusoidal factor: the feature \<open>product\<close> has three values,
  the trend covers two of them. The other two engines hold two factors that share the
  column name \<open>x\<close>.
\<close>

definition product_trend_example :: linear_trend where
  "product_trend_example =
     \<lparr>col_name = ''product_trend'',
      features = [(''product'', [''winter jacket'', ''basketball top''])],
      date_col_name = ''date'', apply_to_all = False, coef = None, offset = None,
      lt_feature = Some ''product'',
      lt_feature_values =
        Some [(''winter jacket'', [(''coef'', 1), (''offset'', 1)]),
              (''basketball top'', [(''coef'', 2), (''offset'', 0)])]\<rparr>"

definition product_engine_example :: generator where
  "product_engine_example =
     \<lparr>factors = [linear_trend_factor product_trend_example, weekday_factor_factor weekday_example],
      engine_features = [(''product'', [''winter jacket'', ''Yoga Mat'', ''basketball top''])],
      engine_date_range = Some [18264, 18265],
      base_value = 10, ts = None\<rparr>"



text \<open>The table that \<open>product_engine_example\<close> generates.\<close>

definition product_table_example :: dataframe where
  "product_table_example =
     \<lparr>columns = [''date'', ''product'', ''base_amount'', ''product_trend'',
                 ''weekend_trend_factor'', ''total_factor'', ''value''],
      rows =
        [[(''date'', Date 18264), (''product'', Label ''winter jacket''), (''base_amount'', Num 10),
          (''product_trend'', Num 2), (''weekend_trend_factor'', Num (23 / 20)),
          (''total_factor'', Num (23 / 10)), (''value'', Num 23)],
         [(''date'', Date 18264), (''product'', Label ''Yoga Mat''), (''base_amount'', Num 10),
          (''product_trend'', Num 1), (''weekend_trend_factor'', Num (23 / 20)),
          (''total_factor'', Num (23 / 20)), (''value'', Num (23 / 2))],
         [(''date'', Date 18264), (''product'', Label ''basketball top''), (''base_amount'', Num 10),
          (''product_trend'', Num 1), (''weekend_trend_factor'', Num (23 / 20)),
          (''total_factor'', Num (23 / 20)), (''value'', Num (23 / 2))],
         [(''date'', Date 18265), (''product'', Label ''winter jacket''), (''base_amount'', Num 10),
          (''product_trend'', Num (5 / 2)), (''weekend_trend_factor'', Num 1),
          (''total_factor'', Num (5 / 2)), (''value'', Num 25)],
         [(''date'', Date 18265), (''product'', Label ''Yoga Mat''), (''base_amount'', Num 10),
          (''product_trend'', Num 1), (''weekend_trend_factor'', Num 1),
          (''total_factor'', Num 1), (''value'', Num 10)],
         [(''date'', Date 18265), (''product'', Label ''basketball top''), (''base_amount'', Num 10),
          (''product_trend'', Num 2), (''weekend_trend_factor'', Num 1),
          (''total_factor'', Num 2), (''value'', Num 20)]]\<rparr>"

section \<open>Auxiliary facts about lists and exceptions\<close>

lemma bind_err_Inr_iff:
  "bind_err x f = Inr y \<longleftrightarrow> (\<exists>v. x = Inr v \<and> f v = Inr y)"
  by (cases x) auto

lemma sequence_map_Inr:
  "(\<And>x. x \<in> set xs \<Longrightarrow> f x = Inr (g x)) \<Longrightarrow> sequence (map f xs) = Inr (map g xs)"
  by (induction xs) auto

lemma sequence_Inr_length: "sequence xs = Inr ys \<Longrightarrow> length ys = length xs"
  by (induction xs arbitrary: ys) (auto simp: bind_err_Inr_iff)

lemma sequence_Inr_nth:
  "sequence xs = Inr ys \<Longrightarrow> i < length xs \<Longrightarrow> xs ! i = Inr (ys ! i)"
proof (induction xs arbitrary: ys i)
  case Nil
  then show ?case by simp
next
  case (Cons x xs)
  then show ?case by (cases i) (auto simp: bind_err_Inr_iff)
qed

lemma upto_as_map: "[i..j] = map (\<lambda>t. i + int t) [0..<nat (j - i + 1)]"
  by (rule nth_equalityI) auto

lemma cartesian_rows:
  "rows (get_cartesian_product df1 df2) = map (\<lambda>(l, r). l @ r) (List.product (rows df1) (rows df2))"
  by (simp add: get_cartesian_product_def product_concat_map map_concat comp_def)

lemma product_map_map:
  "List.product (map f xs) (map g ys) = map (\<lambda>(x, y). (f x, g y)) (List.product xs ys)"
  by (induction xs) (auto simp: comp_def)

lemma zip_map_same: "zip xs (map f xs) = map (\<lambda>x. (x, f x)) xs"
  by (induction xs) auto

lemma zip3_map: "zip (map f xs) (zip (map g xs) (map h xs)) = map (\<lambda>x. (f x, g x, h x)) xs"
  by (induction xs) auto

lemma zip_upt_map: "zip [0..<n] (map f [0..<n]) = map (\<lambda>t. (t, f t)) [0..<n]"
  by (rule zip_map_same)

section \<open>Properties of construction\<close>

lemma base_factor_init_cases:
  "base_factor_init c fo d a =
     (if a \<and> declared fo \<noteq> []
      then Inl (AttributeError ''Factor cannot apply to all features, while specifying a feature.'')
      else Inr \<lparr>col_name = c, features = declared fo, date_col_name = d, apply_to_all = a\<rparr>)"
  by (simp add: base_factor_init_def Let_def)

text \<open>
  Claim C8. Constructing a factor with \<open>apply_to_all\<close> set together with a non-empty
  feature subset fails with the configuration error (an \<open>AttributeError\<close>); whenever
  \<open>apply_to_all\<close> is false or the feature subset is empty (or omitted), the check passes
  and the factor is built with the given fields.
\<close>

theorem base_factor_init_apply_to_all_check:
  "(a \<and> declared fo \<noteq> [] \<longrightarrow>
      base_factor_init c fo d a =
        Inl (AttributeError ''Factor cannot apply to all features, while specifying a feature.''))
   \<and> (\<not> a \<or> declared fo = [] \<longrightarrow>
      base_factor_init c fo d a =
        Inr \<lparr>col_name = c, features = declared fo, date_col_name = d, apply_to_all = a\<rparr>)"
  by (simp add: base_factor_init_cases)

theorem base_factor_init_apply_to_all_check_witness:
  "base_factor_init ''f'' (Some [(''product'', [''a'', ''b''])]) ''date'' True =
     Inl (AttributeError ''Factor cannot apply to all features, while specifying a feature.'')
   \<and> base_factor_init ''f'' (Some [(''product'', [''a'', ''b''])]) ''date'' False =
     Inr \<lparr>col_name = ''f'', features = [(''product'', [''a'', ''b''])], date_col_name = ''date'',
          apply_to_all = False\<rparr>
   \<and> base_factor_init ''f'' None ''date'' True =
     Inr \<lparr>col_name = ''f'', features = [], date_col_name = ''date'', apply_to_all = True\<rparr>"
  using base_factor_init_apply_to_all_check
          [of True "Some [(''product'', [''a'', ''b''])]" "''f''" "''date''"]
        base_factor_init_apply_to_all_check
          [of False "Some [(''product'', [''a'', ''b''])]" "''f''" "''date''"]
        base_factor_init_apply_to_all_check [of True None "''f''" "''date''"]
  by (simp add: declared_def)

text \<open>
  Claim C10. With \<open>stdev_factor\<close> left at its default 0.05, supplying \<open>feature_values\<close>
  (a non-empty dictionary, which is what Python's truth test of the argument sees)
  raises the configuration error "Either set `stdev_factor` or `feature_values`". The
  per-feature-value form is constructible only with a falsy \<open>stdev_factor\<close> (\<open>None\<close> or
  0), and with such a value and a single customised feature it is constructed.
\<close>

theorem white_noise_init_default_conflict:
  "(fv \<noteq> [] \<longrightarrow>
      white_noise_init default_stdev_factor (Some fv) c =
        Inl (AttributeError ''Either set `stdev_factor` or `feature_values`''))
   \<and> (fv \<noteq> [] \<and> white_noise_init sd (Some fv) c = Inr w \<longrightarrow> sd = None \<or> sd = Some 0)
   \<and> (length fv = 1 \<and> (sd = None \<or> sd = Some 0) \<longrightarrow>
      white_noise_init sd (Some fv) c =
        Inr \<lparr>col_name = c, features = labels_of fv, date_col_name = ''date'',
             apply_to_all = False, stdev_factor = sd, wn_feature_values = Some fv\<rparr>)"
proof (intro conjI impI)
  assume "fv \<noteq> []"
  then show "white_noise_init default_stdev_factor (Some fv) c =
        Inl (AttributeError ''Either set `stdev_factor` or `feature_values`'')"
    by (simp add: white_noise_init_def default_stdev_factor_def truthy_float_def truthy_dict_def)
next
  assume h: "fv \<noteq> [] \<and> white_noise_init sd (Some fv) c = Inr w"
  show "sd = None \<or> sd = Some 0"
  proof (rule ccontr)
    assume "\<not> (sd = None \<or> sd = Some 0)"
    then have "truthy_float sd"
      by (cases sd) (auto simp: truthy_float_def)
    moreover from h have "fv \<noteq> []" and "white_noise_init sd (Some fv) c = Inr w"
      by simp_all
    ultimately show False
      by (simp add: white_noise_init_def truthy_dict_def)
  qed
next
  assume h: "length fv = 1 \<and> (sd = None \<or> sd = Some 0)"
  then have ne: "fv \<noteq> []" and nt: "\<not> truthy_float sd"
    by (auto simp: truthy_float_def)
  have lb: "labels_of fv \<noteq> []"
    using ne by (simp add: labels_of_def)
  show "white_noise_init sd (Some fv) c =
        Inr \<lparr>col_name = c, features = labels_of fv, date_col_name = ''date'',
             apply_to_all = False, stdev_factor = sd, wn_feature_values = Some fv\<rparr>"
    using h ne nt
    by (simp add: white_noise_init_def truthy_dict_def base_factor_init_cases declared_def
        white_noise_of_def)
qed

theorem white_noise_init_default_conflict_witness:
  "white_noise_init default_stdev_factor
      (Some [(''my_feature'', [(''feature1'', 5 / 100), (''feature2'', 1 / 10)])]) ''white_noise'' =
     Inl (AttributeError ''Either set `stdev_factor` or `feature_values`'')
   \<and> white_noise_init None
      (Some [(''my_feature'', [(''feature1'', 5 / 100), (''feature2'', 1 / 10)])]) ''white_noise'' =
     Inr \<lparr>col_name = ''white_noise'', features = [(''my_feature'', [''feature1'', ''feature2''])],
          date_col_name = ''date'', apply_to_all = False, stdev_factor = None,
          wn_feature_values =
            Some [(''my_feature'', [(''feature1'', 5 / 100), (''feature2'', 1 / 10)])]\<rparr>"
  using white_noise_init_default_conflict
          [of "[(''my_feature'', [(''feature1'', 5 / 100), (''feature2'', 1 / 10)])]"
              "''white_noise''" None]
  by (simp add: labels_of_def)

section \<open>Properties of the holiday overlap resolution\<close>

lemma clean_loop_index:
  "clean_loop V out xs =
     out @ map (\<lambda>i. xs ! i)
             (filter (\<lambda>i. fst (xs ! i) \<notin> V \<union> fst ` set (take i xs)) [0..<length xs])"
proof (induction xs arbitrary: V out)
  case Nil
  then show ?case by simp
next
  case (Cons p xs)
  obtain a b where p: "p = (a, b)" by (cases p)
  have idx: "[0..<length (p # xs)] = 0 # map Suc [0..<length xs]"
    by (simp add: upt_conv_Cons map_Suc_upt del: upt_Suc)
  show ?case
    unfolding idx
    by (auto simp: p Cons.IH filter_map comp_def simp del: upt_Suc
          intro!: arg_cong[where f="map ((!) xs)"] filter_cong)
qed

lemma clean_holiday_tuples_first_seen: "clean_holiday_tuples xs = first_seen_pairs xs"
  by (simp add: clean_holiday_tuples_def first_seen_pairs_def clean_loop_index)

lemma first_seen_subseq: "subseq (first_seen_pairs xs) xs"
proof -
  have "subseq (map (\<lambda>i. xs ! i) (filter P [0..<length xs])) (map (\<lambda>i. xs ! i) [0..<length xs])"
    for P
    by (intro subseq_map subseq_filter_left)
  then show ?thesis by (simp add: first_seen_pairs_def map_nth)
qed

lemma first_seen_snoc:
  "first_seen_pairs (xs @ [p]) =
     first_seen_pairs xs @ (if fst p \<notin> fst ` set xs then [p] else [])"
  by (auto simp: first_seen_pairs_def nth_append
      intro!: arg_cong2[where f="(@)"] map_cong filter_cong)

lemma first_seen_dates: "fst ` set (first_seen_pairs xs) = fst ` set xs"
proof (induction xs rule: rev_induct)
  case Nil
  then show ?case by (simp add: first_seen_pairs_def)
next
  case (snoc p xs)
  then show ?case by (auto simp: first_seen_snoc)
qed

lemma first_seen_distinct: "distinct (map fst (first_seen_pairs xs))"
proof (induction xs rule: rev_induct)
  case Nil
  then show ?case by (simp add: first_seen_pairs_def)
next
  case (snoc p xs)
  then show ?case using first_seen_dates[of xs] by (auto simp: first_seen_snoc)
qed

lemma first_seen_is_first:
  "p \<in> set (first_seen_pairs xs) \<longleftrightarrow>
     (\<exists>i < length xs. xs ! i = p \<and> fst p \<notin> fst ` set (take i xs))"
  by (auto simp: first_seen_pairs_def)

text \<open>
  Claim C9. For every sequence of (date, holiday-name) pairs, the overlap resolution
  returns exactly the pairs whose date is carried by no earlier pair (the first-seen
  pair of each date), in their original order: the result is a subsequence of the
  input, holds each date of the input once, and a pair is kept if and only if it stands
  at a position before which its date does not occur.
\<close>

theorem clean_holiday_tuples_keeps_first_seen:
  "clean_holiday_tuples xs = first_seen_pairs xs
   \<and> subseq (clean_holiday_tuples xs) xs
   \<and> distinct (map fst (clean_holiday_tuples xs))
   \<and> fst ` set (clean_holiday_tuples xs) = fst ` set xs
   \<and> (\<forall>p. p \<in> set (clean_holiday_tuples xs) \<longleftrightarrow>
          (\<exists>i < length xs. xs ! i = p \<and> fst p \<notin> fst ` set (take i xs)))"
  using first_seen_subseq[of xs] first_seen_distinct[of xs] first_seen_dates[of xs]
    first_seen_is_first[of _ xs]
  by (simp add: clean_holiday_tuples_first_seen)

theorem clean_holiday_tuples_keeps_first_seen_witness:
  "clean_holiday_tuples
      [(16926::int, ''Ascension Thursday''), (16926, ''Liberation Day''), (16937, ''Whit Monday'')] =
     [(16926, ''Ascension Thursday''), (16937, ''Whit Monday'')]
   \<and> first_seen_pairs
      [(16926::int, ''Ascension Thursday''), (16926, ''Liberation Day''), (16937, ''Whit Monday'')] =
     [(16926, ''Ascension Thursday''), (16937, ''Whit Monday'')]"
proof -
  have run: "clean_holiday_tuples
      [(16926::int, ''Ascension Thursday''), (16926, ''Liberation Day''), (16937, ''Whit Monday'')] =
     [(16926, ''Ascension Thursday''), (16937, ''Whit Monday'')]"
    by (simp add: clean_holiday_tuples_def)
  from clean_holiday_tuples_keeps_first_seen
         [of "[(16926::int, ''Ascension Thursday''), (16926, ''Liberation Day''),
               (16937, ''Whit Monday'')]"]
  show ?thesis by (simp add: run)
qed

section \<open>Properties of the factors' generation\<close>

lemma datetime_index_Some:
  "start \<le> e \<Longrightarrow> \<exists>ds. get_datetime_index start (Some e) = start # ds"
  by (simp add: get_datetime_index_def upto_rec1)

lemma datetime_index_map:
  "get_datetime_index start (Some e) = map (\<lambda>t. start + int t) [0..<nat (e - start + 1)]"
  by (simp add: get_datetime_index_def upto_as_map)

lemma linear_trend_generate_global:
  assumes "coef lt = Some c" "offset lt = Some off" "\<not> truthy_dict (lt_feature_values lt)"
    and "col_name lt \<noteq> date_col_name lt" "start \<le> e"
  shows "linear_trend_generate lt start (Some e) =
     Inr \<lparr>columns = [date_col_name lt, col_name lt],
          rows = map (\<lambda>t. [(date_col_name lt, Date (start + int t)),
                           (col_name lt, Num (c / real (nat (e - start + 1)) * real t + 1 + off))])
                   [0..<nat (e - start + 1)]\<rparr>"
proof -
  let ?n = "nat (e - start + 1)"
  obtain ds where ds: "get_datetime_index start (Some e) = start # ds"
    using datetime_index_Some[OF assms(5)] by blast
  have dsmap: "start # ds = map (\<lambda>t. start + int t) [0..<?n]"
    using ds datetime_index_map[of start e] by simp
  have "linear_trend_generate lt start (Some e) =
      Inr \<lparr>columns = [date_col_name lt, col_name lt],
           rows = map (\<lambda>(t, d). [(date_col_name lt, Date d),
                     (col_name lt, Num (c / real (length (start # ds)) * real t + 1 + off))])
                    (zip [0..<length (start # ds)] (start # ds))\<rparr>"
    unfolding linear_trend_generate_def ds Let_def list.case
    using assms(1-4) by simp
  then show ?thesis
    unfolding dsmap by (simp add: zip_upt_map comp_def del: upt_Suc)
qed

lemma zip_map_map_same: "zip (map f xs) (map g xs) = map (\<lambda>x. (f x, g x)) xs"
  by (induction xs) auto

lemma linear_trend_init_per_feature:
  assumes "linear_trend_init c off (Some feat) (Some fv) name = Inr lt" and "feat \<noteq> []"
  shows "(\<forall>v \<in> set (map snd fv). \<not> incomplete v) \<and>
         lt = \<lparr>col_name = name, features = [(feat, map fst fv)], date_col_name = ''date'',
               apply_to_all = False, coef = None, offset = None, lt_feature = Some feat,
               lt_feature_values = Some fv\<rparr>"
  using assms
  by (auto simp: linear_trend_init_def truthy_str_def base_factor_init_cases declared_def
      linear_trend_of_def split: if_splits)

lemma trend_frame_complete:
  assumes "\<forall>v \<in> set (map snd fv). \<not> incomplete v"
  shows "trend_frame feat fv =
     Inr \<lparr>columns = [feat, ''coef'', ''offset''],
          rows = map (\<lambda>(k, v). [(feat, Label k), (''coef'', Num (the (map_of v ''coef''))),
                                 (''offset'', Num (the (map_of v ''offset'')))]) fv\<rparr>"
proof -
  have c: "sequence (map (\<lambda>v. get_item v ''coef'' ''coef'') (map snd fv)) =
           Inr (map (\<lambda>v. the (map_of v ''coef'')) (map snd fv))"
    using assms by (intro sequence_map_Inr) (auto simp: get_item_def incomplete_def)
  have o: "sequence (map (\<lambda>v. get_item v ''offset'' ''offset'') (map snd fv)) =
           Inr (map (\<lambda>v. the (map_of v ''offset'')) (map snd fv))"
    using assms by (intro sequence_map_Inr) (auto simp: get_item_def incomplete_def)
  show ?thesis
    unfolding trend_frame_def c o
    by (simp add: zip3_map comp_def case_prod_beta)
qed

lemma linear_trend_generate_per_feature:
  assumes f: "lt_feature lt = Some feat" and v: "lt_feature_values lt = Some fv" and ne: "fv \<noteq> []"
    and complete: "\<forall>v \<in> set (map snd fv). \<not> incomplete v"
    and hyg: "distinct [date_col_name lt, feat, ''coef'', ''offset'', col_name lt]"
    and le: "start \<le> e"
  shows "linear_trend_generate lt start (Some e) =
     Inr \<lparr>columns = [date_col_name lt, feat, col_name lt],
          rows = map (\<lambda>(d, k, v).
                   [(date_col_name lt, Date d), (feat, Label k),
                    (col_name lt, Num (the (map_of v ''coef'') / real (nat (e - start + 1))
                                        * real_of_int (d - start) + 1 + the (map_of v ''offset'')))])
                   (List.product [start..e] fv)\<rparr>"
proof -
  let ?dc = "date_col_name lt" and ?name = "col_name lt" and ?n = "nat (e - start + 1)"
  define A :: "int \<times> string \<times> (string \<times> real) list \<Rightarrow> row" where
    "A = (\<lambda>(d, k, v). [(?dc, Date d), (feat, Label k),
                 (''coef'', Num (the (map_of v ''coef''))), (''offset'', Num (the (map_of v ''offset'')))])"
  define G :: "int \<times> string \<times> (string \<times> real) list \<Rightarrow> cell" where
    "G = (\<lambda>(d, k, v). Num (the (map_of v ''coef'') / real ?n
                                        * real_of_int (d - start) + 1 + the (map_of v ''offset'')))"
  define P where "P = List.product [start..e] fv"
  obtain ds where ds: "get_datetime_index start (Some e) = start # ds"
    using datetime_index_Some[OF le] by blast
  have dr: "start # ds = [start..e]"
    using ds by (simp add: get_datetime_index_def)
  have len: "length [start..e] = ?n" by simp
  have cart: "get_cartesian_product (to_frame ?dc [start..e])
                \<lparr>columns = [feat, ''coef'', ''offset''],
                 rows = map (\<lambda>(k, v). [(feat, Label k), (''coef'', Num (the (map_of v ''coef''))),
                                 (''offset'', Num (the (map_of v ''offset'')))]) fv\<rparr>
              = \<lparr>columns = [?dc, feat, ''coef'', ''offset''], rows = map A P\<rparr>"
    (is "?cp = _")
  proof -
    have "rows ?cp = map A P"
      by (simp add: cartesian_rows to_frame_def product_map_map case_prod_beta A_def P_def)
    moreover have "columns ?cp = [?dc, feat, ''coef'', ''offset'']"
      by (simp add: get_cartesian_product_def to_frame_def)
    ultimately show ?thesis by simp
  qed
  have seq: "sequence (map (get_factor_col ?dc start ?n) (map A P)) = Inr (map G P)"
    unfolding map_map
    using hyg
    by (intro sequence_map_Inr)
       (auto simp: get_factor_col_def cell_date_def cell_num_def get_item_def A_def G_def)
  have setc: "set_column ?name (map G P) \<lparr>columns = [?dc, feat, ''coef'', ''offset''], rows = map A P\<rparr>
      = \<lparr>columns = [?dc, feat, ''coef'', ''offset'', ?name],
         rows = map (\<lambda>p. A p @ [(?name, G p)]) P\<rparr>"
    using hyg by (auto simp: set_column_def add_label_def zip_map_map_same A_def)
  have "linear_trend_generate lt start (Some e) =
      bind_err (trend_frame feat fv) (\<lambda>df.
        bind_err (sequence (map (get_factor_col ?dc start ?n)
                   (rows (get_cartesian_product (to_frame ?dc [start..e]) df)))) (\<lambda>vs.
          drop_columns [''coef'', ''offset'']
            (set_column ?name vs (get_cartesian_product (to_frame ?dc [start..e]) df))))"
    unfolding linear_trend_generate_def ds Let_def list.case
    unfolding dr len
    using ne by (simp add: f v truthy_dict_def label_of_def)
  also have "\<dots> = drop_columns [''coef'', ''offset'']
        \<lparr>columns = [?dc, feat, ''coef'', ''offset'', ?name],
         rows = map (\<lambda>p. A p @ [(?name, G p)]) P\<rparr>"
    unfolding trend_frame_complete[OF complete] bind_err.simps cart
    by (simp only: dataframe.simps seq bind_err.simps setc)
  also have "\<dots> = Inr \<lparr>columns = [?dc, feat, ?name],
          rows = map (\<lambda>p. case p of (d, k, v) \<Rightarrow> [(?dc, Date d), (feat, Label k), (?name, G p)]) P\<rparr>"
    using hyg by (auto simp: drop_columns_def A_def)
  finally show ?thesis by (simp add: G_def P_def case_prod_beta)
qed

lemma filter_half_open:
  "filter (\<lambda>d. start \<le> d \<and> d < e) [start..e] = [start..e - 1]"
proof (rule sorted_distinct_set_unique)
  show "sorted (filter (\<lambda>d. start \<le> d \<and> d < e) [start..e])"
    by (simp add: sorted_wrt_filter)
  show "set (filter (\<lambda>d. start \<le> d \<and> d < e) [start..e]) = set [start..e - 1]"
    by auto
qed simp_all

lemma weekday_frame:
  assumes hyg: "distinct [date_col_name w, ''weekday'', col_name w]"
  shows "drop_columns [''weekday'']
           (set_column (col_name w) (map (\<lambda>d. Num (weekday_value w (dayofweek d))) dr)
             (set_column ''weekday'' (map (\<lambda>d. Num (of_int (dayofweek d))) dr)
               (to_frame (date_col_name w) dr))) =
         Inr \<lparr>columns = [date_col_name w, col_name w],
              rows = map (\<lambda>d. [(date_col_name w, Date d),
                               (col_name w, Num (weekday_value w (dayofweek d)))]) dr\<rparr>"
  using hyg
  by (auto simp: drop_columns_def set_column_def add_label_def to_frame_def zip_map_map_same
      zip_map_same comp_def)

lemma select_rows_dates:
  assumes "dc \<noteq> name"
  shows "select_rows dc keep
           \<lparr>columns = [dc, name], rows = map (\<lambda>d. [(dc, Date d), (name, f d)]) dr\<rparr> =
         Inr \<lparr>columns = [dc, name], rows = map (\<lambda>d. [(dc, Date d), (name, f d)]) (filter keep dr)\<rparr>"
proof -
  have "sequence (map (\<lambda>r. bind_err (cell_date r dc) (\<lambda>d. Inr (r, keep d)))
                   (map (\<lambda>d. [(dc, Date d), (name, f d)]) dr)) =
        Inr (map (\<lambda>d. ([(dc, Date d), (name, f d)], keep d)) dr)"
    unfolding map_map
    by (intro sequence_map_Inr) (simp add: cell_date_def get_item_def)
  then show ?thesis
    by (simp add: select_rows_def filter_map comp_def)
qed

lemma weekday_factor_generate_rows:
  assumes hyg: "distinct [date_col_name w, ''weekday'', col_name w]"
  shows "weekday_factor_generate w start (Some e) =
         Inr \<lparr>columns = [date_col_name w, col_name w],
              rows = map (\<lambda>d. [(date_col_name w, Date d),
                               (col_name w, Num (weekday_value w (dayofweek d)))]) [start..e - 1]\<rparr>"
proof -
  have ne: "date_col_name w \<noteq> col_name w" using hyg by simp
  show ?thesis
    unfolding weekday_factor_generate_def Let_def weekday_frame[OF hyg] bind_err.simps
    by (simp add: select_rows_dates[OF ne] get_datetime_index_def filter_half_open)
qed

lemma linear_trend_init_global:
  "linear_trend_init (Some c) (Some off) None None name =
     Inr \<lparr>col_name = name, features = [], date_col_name = ''date'', apply_to_all = False,
          coef = Some c, offset = Some off, lt_feature = None, lt_feature_values = None\<rparr>"
  by (simp add: linear_trend_init_def truthy_str_def base_factor_init_cases declared_def
      linear_trend_of_def)








text \<open>
  In the per-feature-value form \<open>WhiteNoise.generate\<close> returns no table for any dates and
  any samples.
\<close>

lemma white_noise_per_feature_fails:
  assumes "features wn \<noteq> []" "truthy_dict (wn_feature_values wn)"
  shows "\<exists>err. white_noise_generate wn z start_date end_date = Inl err"
proof -
  have "\<exists>err. bind_err x (\<lambda>vs. if vs = [] then Inl (KeyError ''noise1'')
                                else Inl (ValueError ''No axis named 1 for object type Series'')) = Inl err"
    for x :: "error + cell list"
    by (cases x) auto
  then show ?thesis
    using assms by (simp add: white_noise_generate_def Let_def)
qed

text \<open>
  Claim C7. The WhiteNoise factor of the class docstring, per-feature-value standard
  deviations on one feature with two values, generated over three days: instead of a
  table of values \<open>1 + stdev * z\<close>, the call raises \<open>KeyError\<close> for the column \<open>noise1\<close>,
  whatever the samples \<open>z\<close>.
\<close>

theorem white_noise_per_feature_key_error:
  "white_noise_init None (Some noise_example_values) ''white_noise'' = Inr noise_example
   \<and> white_noise_generate noise_example z 18262 (Some 18264) = Inl (KeyError ''noise1'')"
  by (simp add: white_noise_init_def truthy_float_def truthy_dict_def base_factor_init_cases
      declared_def labels_of_def white_noise_of_def noise_example_def noise_example_values_def
      white_noise_generate_def get_datetime_index_def upto_rec1 get_cartesian_product_def
      to_frame_def feature_frame_def set_column_def add_label_def randn_def upt_conv_Cons
      noise_factor_col_def get_item_def cell_num_def)

section \<open>Properties of the engine\<close>

lemma rebind_idem: "rebind fs (rebind fs f) = rebind fs f"
  by (simp add: rebind_def)

lemma rebind_col_name: "col_name (rebind fs f) = col_name f"
  by (simp add: rebind_def)

lemma merge_factors_idem:
  "merge_factors fs dr t (snd (merge_factors fs dr t fl)) = merge_factors fs dr t fl"
proof (induction fl arbitrary: t)
  case Nil
  then show ?case by simp
next
  case (Cons f rest)
  show ?case
  proof (cases "dr = []")
    case True
    then show ?thesis by (simp add: Let_def rebind_idem)
  next
    case False
    show ?thesis
    proof (cases "generate_fn (rebind fs f) (features (rebind fs f)) (hd dr) (Some (last dr))")
      case (Inl e)
      then show ?thesis using False by (simp add: Let_def rebind_idem)
    next
      case (Inr df)
      show ?thesis
      proof (cases "merge_left t df (merge_keys (rebind fs f))")
        case (Inl e)
        then show ?thesis using False Inr by (simp add: Let_def rebind_idem)
      next
        case (Inr m)
        obtain res rest' where r: "merge_factors fs dr (fillna (Num 1) m) rest = (res, rest')"
          by (cases "merge_factors fs dr (fillna (Num 1) m) rest")
        have "merge_factors fs dr (fillna (Num 1) m) rest' = (res, rest')"
          using Cons.IH[of "fillna (Num 1) m"] r by simp
        then show ?thesis
          using False \<open>generate_fn (rebind fs f) (features (rebind fs f)) (hd dr) (Some (last dr)) = Inr df\<close>
            Inr r
          by (simp add: Let_def rebind_idem)
      qed
    qed
  qed
qed

lemma merge_factors_col_names:
  "map col_name (snd (merge_factors fs dr t fl)) = map col_name fl"
proof (induction fl arbitrary: t)
  case Nil
  then show ?case by simp
next
  case (Cons f rest)
  show ?case
    using Cons.IH
    by (auto simp: Let_def rebind_col_name case_prod_beta split: sum.splits)
qed

lemma generate_idem: "generate (snd (generate g)) = generate g"
proof (cases "engine_date_range g")
  case None
  then show ?thesis by (simp add: generate_def)
next
  case (Some dr)
  define t1 where "t1 = base_table dr (engine_features g) (base_value g)"
  obtain res fs' where m: "merge_factors (engine_features g) dr t1 (factors g) = (res, fs')"
    by (cases "merge_factors (engine_features g) dr t1 (factors g)")
  have m': "merge_factors (engine_features g) dr t1 fs' = (res, fs')"
    using merge_factors_idem[of "engine_features g" dr t1 "factors g"] m by simp
  show ?thesis
    using Some m m'
    by (auto simp: generate_def Let_def t1_def[symmetric] split: sum.splits)
qed

lemma generate_Some:
  assumes "engine_date_range g = Some dr"
    and "merge_factors (engine_features g) dr (base_table dr (engine_features g) (base_value g))
           (factors g) = (res, fs')"
  shows "generate g =
     (case res of
        Inl e \<Rightarrow> (Inl e, g\<lparr>factors := fs'\<rparr>)
      | Inr t2 \<Rightarrow>
          if \<not> distinct (map col_name (factors g))
          then (Inl (DuplicateNameError (map col_name (factors g))), g\<lparr>factors := fs'\<rparr>)
          else (case derive (map col_name (factors g)) t2 of
                  Inl e \<Rightarrow> (Inl e, g\<lparr>factors := fs'\<rparr>)
                | Inr t3 \<Rightarrow> (Inr t3, g\<lparr>factors := fs', ts := Some t3\<rparr>)))"
proof -
  have names: "map col_name fs' = map col_name (factors g)"
    using merge_factors_col_names[of "engine_features g" dr
        "base_table dr (engine_features g) (base_value g)" "factors g"] assms(2) by simp
  have "(length (map col_name (factors g)) \<noteq> card (set (map col_name (factors g))))
        = (\<not> distinct (map col_name (factors g)))"
    using card_distinct distinct_card by metis
  then show ?thesis
    using assms by (simp add: generate_def Let_def names split: sum.splits)
qed

lemma set_update_subset: "set (AList.update k v al) \<subseteq> insert (k, v) (set al)"
  by (induction al) auto

lemma nan_free_fillna: "nan_free (fillna (Num 1) m)"
  by (auto simp: nan_free_def fillna_def split: if_splits)

lemma nan_free_base_table: "nan_free (base_table dr fs b)"
proof -
  have sk: "NaN \<notin> snd ` set r" if "r \<in> set (rows (skeleton dr fs))" for r
    using that by (auto simp: skeleton_def dest!: set_zip_rightD)
  show ?thesis
    unfolding nan_free_def base_table_def Let_def set_column_def
  proof (clarsimp)
    fix r v c
    assume "(r, v) \<in> set (zip (rows (skeleton dr fs))
                (replicate (length (rows (skeleton dr fs))) (Num b)))"
      and "(c, NaN) \<in> set (AList.update ''base_amount'' v r)"
    then have "r \<in> set (rows (skeleton dr fs))" and "v = Num b"
      and "(c, NaN) \<in> insert (''base_amount'', v) (set r)"
      using set_update_subset[of "''base_amount''" v r]
      by (auto dest: set_zip_leftD set_zip_rightD)
    then show False using sk[of r] by force
  qed
qed

lemma merge_factors_nan_free:
  "merge_factors fs dr t fl = (Inr t', fl') \<Longrightarrow> fl \<noteq> [] \<or> nan_free t \<Longrightarrow> nan_free t'"
proof (induction fl arbitrary: t fl')
  case Nil
  then show ?case by simp
next
  case (Cons f rest)
  from Cons.prems(1) obtain df m rest' where
    "merge_factors fs dr (fillna (Num 1) m) rest = (Inr t', rest')"
    by (auto simp: Let_def split: if_splits sum.splits prod.splits)
  then show ?case
    using Cons.IH[of "fillna (Num 1) m" rest'] nan_free_fillna by blast
qed

lemma prod_cells_nums:
  "prod_cells cs = Inr p \<Longrightarrow> NaN \<notin> set cs \<Longrightarrow> \<exists>vs. cs = map Num vs \<and> p = prod_list vs"
proof (induction cs arbitrary: p)
  case Nil
  then show ?case by simp
next
  case (Cons c cs)
  show ?case
  proof (cases c)
    case (Num v)
    with Cons.prems obtain q where q: "prod_cells cs = Inr q" and p: "p = v * q"
      by (auto simp: bind_err_Inr_iff)
    from Cons.IH[OF q] Cons.prems(2) obtain vs where "cs = map Num vs" "q = prod_list vs"
      by auto
    then have "c # cs = map Num (v # vs) \<and> p = prod_list (v # vs)"
      using Num p by simp
    then show ?thesis by (intro exI[of _ "v # vs"])
  qed (use Cons.prems in auto)
qed

lemma sequence_get_items:
  "sequence (map (\<lambda>n. get_item r n n) names) = Inr cs \<Longrightarrow>
     map (map_of r) names = map Some cs"
proof (induction names arbitrary: cs)
  case Nil
  then show ?case by simp
next
  case (Cons n names)
  then show ?case
    by (auto simp: bind_err_Inr_iff get_item_def split: option.splits)
qed

lemma row_prod_nums:
  assumes "row_prod names m = Inr c" and "NaN \<notin> snd ` set m"
  shows "\<exists>vs. c = Num (prod_list vs) \<and> map (map_of m) names = map (\<lambda>v. Some (Num v)) vs"
proof -
  from assms(1) obtain cs p where cs: "sequence (map (\<lambda>n. get_item m n n) names) = Inr cs"
    and p: "prod_cells cs = Inr p" and c: "c = Num p"
    by (auto simp: row_prod_def bind_err_Inr_iff)
  have look: "map (map_of m) names = map Some cs"
    by (rule sequence_get_items[OF cs])
  have "NaN \<notin> set cs"
  proof
    assume "NaN \<in> set cs"
    then have "Some NaN \<in> set (map (map_of m) names)" unfolding look by simp
    then obtain n where "map_of m n = Some NaN" by auto
    then have "(n, NaN) \<in> set m" by (rule map_of_SomeD)
    then show False using assms(2) by force
  qed
  from prod_cells_nums[OF p this] obtain vs where "cs = map Num vs" "p = prod_list vs" by blast
  then show ?thesis using c look by (auto simp: comp_def)
qed

lemma row_mul_nums:
  assumes "row_mul ''total_factor'' ''base_amount'' (AList.update ''total_factor'' (Num p) m) = Inr v"
    and "NaN \<notin> snd ` set m"
  shows "\<exists>b. map_of m ''base_amount'' = Some (Num b) \<and> v = Num (p * b)"
proof -
  from assms(1) obtain y where y: "map_of m ''base_amount'' = Some y"
    and mul: "mul_cells (Num p) y = Inr v"
    by (auto simp: row_mul_def bind_err_Inr_iff get_item_def update_conv' split: option.splits)
  from y have "(''base_amount'', y) \<in> set m" by (rule map_of_SomeD)
  then have "y \<noteq> NaN" using assms(2) by force
  with mul y show ?thesis by (cases y) auto
qed

lemma derive_rows:
  assumes d: "derive names t = Inr t'" and nf: "nan_free t" and r: "r \<in> set (rows t')"
  shows "\<exists>m vs b. m \<in> set (rows t)
           \<and> map (map_of m) names = map (\<lambda>v. Some (Num v)) vs
           \<and> map_of m ''base_amount'' = Some (Num b)
           \<and> r = AList.update ''value'' (Num (prod_list vs * b))
                    (AList.update ''total_factor'' (Num (prod_list vs)) m)"
proof -
  from d obtain ps vs' where ps: "sequence (map (row_prod names) (rows t)) = Inr ps"
    and vs': "sequence (map (row_mul ''total_factor'' ''base_amount'')
                 (rows (set_column ''total_factor'' ps t))) = Inr vs'"
    and t': "t' = set_column ''value'' vs' (set_column ''total_factor'' ps t)"
    by (auto simp: derive_def Let_def bind_err_Inr_iff split: list.splits if_splits)
  have lps: "length ps = length (rows t)"
    using sequence_Inr_length[OF ps] by simp
  have rows1: "rows (set_column ''total_factor'' ps t) =
      map (\<lambda>i. AList.update ''total_factor'' (ps ! i) (rows t ! i)) [0..<length (rows t)]"
    using lps by (auto simp: set_column_def intro!: nth_equalityI)
  have lvs: "length vs' = length (rows t)"
    using sequence_Inr_length[OF vs'] by (simp add: rows1)
  have rows2: "rows t' =
      map (\<lambda>i. AList.update ''value'' (vs' ! i)
                  (AList.update ''total_factor'' (ps ! i) (rows t ! i))) [0..<length (rows t)]"
    unfolding t' using lvs lps by (auto simp: set_column_def rows1 intro!: nth_equalityI)
  from r obtain i where i: "i < length (rows t)"
    and ri: "r = AList.update ''value'' (vs' ! i)
                  (AList.update ''total_factor'' (ps ! i) (rows t ! i))"
    unfolding rows2 by auto
  let ?m = "rows t ! i"
  have m: "?m \<in> set (rows t)" using i by simp
  then have mn: "NaN \<notin> snd ` set ?m" using nf by (simp add: nan_free_def)
  have "row_prod names ?m = Inr (ps ! i)"
    using sequence_Inr_nth[OF ps, of i] i by simp
  from row_prod_nums[OF this mn] obtain vs where psi: "ps ! i = Num (prod_list vs)"
    and cells: "map (map_of ?m) names = map (\<lambda>v. Some (Num v)) vs"
    by blast
  have "row_mul ''total_factor'' ''base_amount''
          (AList.update ''total_factor'' (Num (prod_list vs)) ?m) = Inr (vs' ! i)"
    using sequence_Inr_nth[OF vs', of i] i by (simp add: rows1 psi)
  from row_mul_nums[OF this mn] obtain b where "map_of ?m ''base_amount'' = Some (Num b)"
    and "vs' ! i = Num (prod_list vs * b)"
    by blast
  then show ?thesis using m cells ri psi by auto
qed

lemma generate_Inr_cases:
  assumes "generate g = (Inr t, g')"
  obtains dr t2 fs' where "engine_date_range g = Some dr"
    and "merge_factors (engine_features g) dr (base_table dr (engine_features g) (base_value g))
           (factors g) = (Inr t2, fs')"
    and "distinct (map col_name (factors g))"
    and "derive (map col_name (factors g)) t2 = Inr t"
    and "g' = g\<lparr>factors := fs', ts := Some t\<rparr>"
proof -
  from assms obtain dr where dr: "engine_date_range g = Some dr"
    by (cases "engine_date_range g") (auto simp: generate_def)
  obtain res fs' where m: "merge_factors (engine_features g) dr
               (base_table dr (engine_features g) (base_value g)) (factors g) = (res, fs')"
    by (cases "merge_factors (engine_features g) dr
               (base_table dr (engine_features g) (base_value g)) (factors g)")
  from assms show ?thesis
    unfolding generate_Some[OF dr m]
    using that[OF dr] m by (auto split: sum.splits if_splits)
qed

lemma product_engine_generate:
  "fst (generate product_engine_example) = Inr product_table_example"
  by (simp add: product_engine_example_def product_table_example_def generate_def base_table_def
      skeleton_def set_column_def add_label_def rebind_def linear_trend_factor_def
      weekday_factor_factor_def product_trend_example_def weekday_example_def
      default_factor_values_def linear_trend_generate_def get_datetime_index_def upto_rec1
      truthy_dict_def label_of_def trend_frame_def get_item_def get_cartesian_product_def
      to_frame_def get_factor_col_def cell_date_def cell_num_def drop_columns_def
      weekday_factor_generate_def select_rows_def dayofweek_def weekday_value_def
      merge_keys_def merge_left_def overlap_def join_row_def key_of_def left_part_def right_part_def
      missing_part_def suffixed_def fillna_def derive_def row_prod_def row_mul_def)

text \<open>
  Claim C1. In every row of the table that \<open>Generator.generate\<close> returns, \<open>total_factor\<close>
  is the product of the factors' values \<open>vs\<close> of that row, one per factor, and \<open>value\<close> is
  \<open>total_factor\<close> times the row's \<open>base_amount\<close>. The values \<open>vs\<close> are the cells of the
  factors' columns in the returned row (for every factor whose column is not itself
  named \<open>total_factor\<close> or \<open>value\<close>: such a column is overwritten by the derived one).
\<close>

theorem generate_product_invariant:
  assumes "generate g = (Inr t, g')" and "r \<in> set (rows t)"
  shows "\<exists>vs b. length vs = length (factors g)
     \<and> map_of r ''total_factor'' = Some (Num (prod_list vs))
     \<and> map_of r ''base_amount'' = Some (Num b)
     \<and> map_of r ''value'' = Some (Num (prod_list vs * b))
     \<and> (\<forall>i < length (factors g).
           col_name (factors g ! i) \<notin> {''total_factor'', ''value''} \<longrightarrow>
           map_of r (col_name (factors g ! i)) = Some (Num (vs ! i)))"
proof -
  from assms(1) obtain dr t2 fs' where dr: "engine_date_range g = Some dr"
    and m: "merge_factors (engine_features g) dr (base_table dr (engine_features g) (base_value g))
           (factors g) = (Inr t2, fs')"
    and d: "derive (map col_name (factors g)) t2 = Inr t"
    by (rule generate_Inr_cases)
  have nf: "nan_free t2"
    using merge_factors_nan_free[OF m] nan_free_base_table by blast
  from derive_rows[OF d nf assms(2)] obtain m' vs b where
    cells: "map (map_of m') (map col_name (factors g)) = map (\<lambda>v. Some (Num v)) vs"
    and b: "map_of m' ''base_amount'' = Some (Num b)"
    and r: "r = AList.update ''value'' (Num (prod_list vs * b))
                    (AList.update ''total_factor'' (Num (prod_list vs)) m')"
    by blast
  have len: "length vs = length (factors g)"
    using arg_cong[OF cells, of length] by simp
  have other: "map_of r n = map_of m' n" if "n \<notin> {''total_factor'', ''value''}" for n
    using that by (simp add: r update_conv')
  have fac: "map_of r (col_name (factors g ! i)) = Some (Num (vs ! i))"
    if "i < length (factors g)" "col_name (factors g ! i) \<notin> {''total_factor'', ''value''}" for i
  proof -
    have "map (map_of m') (map col_name (factors g)) ! i = map (\<lambda>v. Some (Num v)) vs ! i"
      using cells by simp
    then have "map_of m' (col_name (factors g ! i)) = Some (Num (vs ! i))"
      using that(1) len by simp
    then show ?thesis using other[OF that(2)] by simp
  qed
  have "map_of r ''total_factor'' = Some (Num (prod_list vs))"
    and "map_of r ''base_amount'' = Some (Num b)"
    and "map_of r ''value'' = Some (Num (prod_list vs * b))"
    using b by (simp_all add: r update_conv')
  then show ?thesis using len fac by blast
qed

theorem generate_product_invariant_witness:
  "fst (generate product_engine_example) = Inr product_table_example
   \<and> (\<exists>vs b. length vs = length (factors product_engine_example)
        \<and> map_of (rows product_table_example ! 0) ''total_factor'' = Some (Num (prod_list vs))
        \<and> map_of (rows product_table_example ! 0) ''base_amount'' = Some (Num b)
        \<and> map_of (rows product_table_example ! 0) ''value'' = Some (Num (prod_list vs * b))
        \<and> map_of (rows product_table_example ! 0) ''product_trend'' = Some (Num (vs ! 0))
        \<and> map_of (rows product_table_example ! 0) ''weekend_trend_factor'' = Some (Num (vs ! 1)))
   \<and> map_of (rows product_table_example ! 0) ''total_factor'' = Some (Num (2 * (23 / 20)))
   \<and> map_of (rows product_table_example ! 0) ''value'' = Some (Num (2 * (23 / 20) * 10))"
proof -
  have gen: "generate product_engine_example =
      (Inr product_table_example, snd (generate product_engine_example))"
    using product_engine_generate by (metis prod.collapse)
  have row: "rows product_table_example ! 0 \<in> set (rows product_table_example)"
    by (simp add: product_table_example_def)
  have names: "length (factors product_engine_example) = 2"
    "col_name (factors product_engine_example ! 0) = ''product_trend''"
    "col_name (factors product_engine_example ! 1) = ''weekend_trend_factor''"
    by (simp_all add: product_engine_example_def linear_trend_factor_def weekday_factor_factor_def
        product_trend_example_def weekday_example_def)
  from generate_product_invariant[OF gen row] obtain vs b where
    "length vs = length (factors product_engine_example)"
    "map_of (rows product_table_example ! 0) ''total_factor'' = Some (Num (prod_list vs))"
    "map_of (rows product_table_example ! 0) ''base_amount'' = Some (Num b)"
    "map_of (rows product_table_example ! 0) ''value'' = Some (Num (prod_list vs * b))"
    "\<forall>i < length (factors product_engine_example).
           col_name (factors product_engine_example ! i) \<notin> {''total_factor'', ''value''} \<longrightarrow>
           map_of (rows product_table_example ! 0) (col_name (factors product_engine_example ! i))
             = Some (Num (vs ! i))"
    by blast
  then have "\<exists>vs b. length vs = length (factors product_engine_example)
        \<and> map_of (rows product_table_example ! 0) ''total_factor'' = Some (Num (prod_list vs))
        \<and> map_of (rows product_table_example ! 0) ''base_amount'' = Some (Num b)
        \<and> map_of (rows product_table_example ! 0) ''value'' = Some (Num (prod_list vs * b))
        \<and> map_of (rows product_table_example ! 0) ''product_trend'' = Some (Num (vs ! 0))
        \<and> map_of (rows product_table_example ! 0) ''weekend_trend_factor'' = Some (Num (vs ! 1))"
    using names by (intro exI[of _ vs] exI[of _ b]) (auto simp: numeral_2_eq_2)
  moreover have "map_of (rows product_table_example ! 0) ''total_factor'' = Some (Num (2 * (23 / 20)))"
    "map_of (rows product_table_example ! 0) ''value'' = Some (Num (2 * (23 / 20) * 10))"
    by (simp_all add: product_table_example_def)
  ultimately show ?thesis using product_engine_generate by blast
qed

lemma map_of_append_left: "k \<in> fst ` set l \<Longrightarrow> map_of (l @ e) k = map_of l k"
  by (simp add: map_add_dom_app_simps dom_map_of_conv_image_fst)

lemma map_of_append_right: "k \<notin> fst ` set l \<Longrightarrow> map_of (l @ e) k = map_of e k"
  by (simp add: map_add_dom_app_simps dom_map_of_conv_image_fst)

lemma key_of_append: "set on \<subseteq> fst ` set l \<Longrightarrow> key_of on (l @ e) = key_of on l"
  by (auto simp: key_of_def simp del: map_of_append intro!: map_of_append_left)

lemma update_fresh: "k \<notin> fst ` set al \<Longrightarrow> AList.update k v al = al @ [(k, v)]"
  by (induction al) auto

lemma skeleton_row_keys:
  "r \<in> set (rows (skeleton dr fs)) \<Longrightarrow> map fst r = ''date'' # map fst fs"
  by (auto simp: skeleton_def dest!: in_set_product_lists_length)

lemma base_table_fresh:
  assumes "''base_amount'' \<notin> set (''date'' # map fst fs)"
  shows "columns (base_table dr fs b) = ''date'' # map fst fs @ [''base_amount'']"
    and "rows (base_table dr fs b) =
           map (\<lambda>s. s @ [(''base_amount'', Num b)]) (rows (skeleton dr fs))"
proof -
  show "columns (base_table dr fs b) = ''date'' # map fst fs @ [''base_amount'']"
    using assms by (simp add: base_table_def Let_def set_column_def add_label_def skeleton_def)
  have "AList.update ''base_amount'' (Num b) s = s @ [(''base_amount'', Num b)]"
    if "s \<in> set (rows (skeleton dr fs))" for s
  proof -
    have "fst ` set s = set (''date'' # map fst fs)"
      using skeleton_row_keys[OF that] by (metis set_map)
    then show ?thesis using assms by (intro update_fresh) simp
  qed
  then show "rows (base_table dr fs b) =
           map (\<lambda>s. s @ [(''base_amount'', Num b)]) (rows (skeleton dr fs))"
    by (auto simp: base_table_def Let_def set_column_def zip_replicate2 map_replicate_const
        intro!: nth_equalityI)
qed

lemma well_formed_base_table:
  assumes "''base_amount'' \<notin> set (''date'' # map fst fs)"
  shows "well_formed (base_table dr fs b)"
  unfolding well_formed_def base_table_fresh[OF assms]
  by (auto simp: skeleton_row_keys)

lemma contract_value_cell:
  assumes "obeys_contract f df" "x \<in> set (rows df)"
  shows "\<exists>v. filter (\<lambda>(c, v). c \<notin> set (merge_keys f)) x = [(col_name f, v)]"
proof -
  have "map fst (filter (\<lambda>(c, v). c \<notin> set (merge_keys f)) x)
        = filter (\<lambda>c. c \<notin> set (merge_keys f)) (map fst x)"
    by (induction x) auto
  also have "\<dots> = [col_name f]"
    using assms by (simp add: obeys_contract_def well_formed_def)
  finally show ?thesis
    by (cases "filter (\<lambda>(c, v). c \<notin> set (merge_keys f)) x") auto
qed

lemma merge_left_fresh:
  assumes c: "obeys_contract f df" and fresh: "col_name f \<notin> set (columns t)"
    and m: "merge_left t df (merge_keys f) = Inr m"
  shows "columns m = columns t @ [col_name f]"
    and "rows m = concat (map (\<lambda>l.
            case filter (\<lambda>x. key_of (merge_keys f) x = key_of (merge_keys f) l) (rows df) of
              [] \<Rightarrow> [l @ [(col_name f, NaN)]]
            | ms \<Rightarrow> map (\<lambda>x. l @ filter (\<lambda>(c, v). c \<notin> set (merge_keys f)) x) ms) (rows t))"
    and "set (merge_keys f) \<subseteq> set (columns t)"
proof -
  let ?on = "merge_keys f"
  have nonkey: "filter (\<lambda>c. c \<notin> set ?on) (columns df) = [col_name f]"
    using c by (simp add: obeys_contract_def)
  have ov: "overlap ?on t df = []"
  proof -
    have "c' \<notin> set ?on \<and> c' \<in> set (columns df) \<longrightarrow> c' = col_name f" for c'
    proof
      assume "c' \<notin> set ?on \<and> c' \<in> set (columns df)"
      then have "c' \<in> set (filter (\<lambda>c. c \<notin> set ?on) (columns df))" by simp
      then show "c' = col_name f" unfolding nonkey by simp
    qed
    then show ?thesis using fresh by (auto simp: overlap_def filter_empty_conv)
  qed
  from m have nokey: "filter (\<lambda>k. k \<notin> set (columns df) \<or> k \<notin> set (columns t)) ?on = []"
    by (auto simp: merge_left_def split: list.splits)
  then show "set ?on \<subseteq> set (columns t)"
    by (auto simp: filter_empty_conv)
  have sfx: "suffixed [] s = (\<lambda>c. c)" for s
    by (simp add: suffixed_def fun_eq_iff)
  have lp: "left_part [] l = l" for l
    by (simp add: left_part_def sfx case_prod_beta)
  have rp: "right_part ?on [] x = filter (\<lambda>(c, v). c \<notin> set ?on) x" for x
    by (simp add: right_part_def sfx case_prod_beta)
  have mp: "missing_part ?on [] (columns df) = [(col_name f, NaN)]"
    by (simp add: missing_part_def sfx nonkey)
  from m have m_eq: "m = \<lparr>columns = map (suffixed [] ''_x'') (columns t)
                          @ map (suffixed [] ''_y'') (filter (\<lambda>c. c \<notin> set ?on) (columns df)),
                rows = concat (map (join_row ?on [] df) (rows t))\<rparr>"
    using nokey by (simp add: merge_left_def ov Let_def)
  show "columns m = columns t @ [col_name f]"
    unfolding m_eq by (simp add: sfx nonkey)
  show "rows m = concat (map (\<lambda>l.
            case filter (\<lambda>x. key_of ?on x = key_of ?on l) (rows df) of
              [] \<Rightarrow> [l @ [(col_name f, NaN)]]
            | ms \<Rightarrow> map (\<lambda>x. l @ filter (\<lambda>(c, v). c \<notin> set ?on) x) ms) (rows t))"
  proof -
    have "join_row ?on [] df = (\<lambda>l.
            case filter (\<lambda>x. key_of ?on x = key_of ?on l) (rows df) of
              [] \<Rightarrow> [l @ [(col_name f, NaN)]]
            | ms \<Rightarrow> map (\<lambda>x. l @ filter (\<lambda>(c, v). c \<notin> set ?on) x) ms)"
      by (auto simp: fun_eq_iff join_row_def lp rp mp split: list.splits)
    then show ?thesis unfolding m_eq by simp
  qed
qed

lemma fill_row_id:
  "NaN \<notin> snd ` set l \<Longrightarrow> map (\<lambda>(c, x). (c, if x = NaN then v else x)) l = l"
  by (induction l) auto

lemma merge_step:
  assumes c: "obeys_contract f df" and fresh: "col_name f \<notin> set (columns t)"
    and wf: "well_formed t" and nf: "nan_free t"
    and m: "merge_left t df (merge_keys f) = Inr m"
  shows "columns (fillna (Num 1) m) = columns t @ [col_name f]"
    and "well_formed (fillna (Num 1) m)"
    and "\<forall>r \<in> set (rows (fillna (Num 1) m)). \<exists>l \<in> set (rows t). \<exists>v.
           r = l @ [(col_name f, v)]
           \<and> ((\<forall>x \<in> set (rows df). key_of (merge_keys f) x \<noteq> key_of (merge_keys f) l)
                \<longrightarrow> v = Num 1)"
    and "\<forall>l \<in> set (rows t). \<exists>v. l @ [(col_name f, v)] \<in> set (rows (fillna (Num 1) m))"
proof -
  let ?on = "merge_keys f" and ?col = "col_name f"
  let ?fill = "map (\<lambda>(c, x). (c, if x = NaN then Num 1 else x))"
  note ml = merge_left_fresh[OF c fresh m]
  have fill_ext: "?fill (l @ [(?col, v)]) = l @ [(?col, if v = NaN then Num 1 else v)]"
    if "l \<in> set (rows t)" for l v
    using that nf by (simp add: nan_free_def fill_row_id)
  have rows_m: "\<exists>l \<in> set (rows t). \<exists>v. r = l @ [(?col, v)]
           \<and> ((\<forall>x \<in> set (rows df). key_of ?on x \<noteq> key_of ?on l) \<longrightarrow> v = NaN)"
    if "r \<in> set (rows m)" for r
  proof -
    from that obtain l where l: "l \<in> set (rows t)"
      and r: "r \<in> set (case filter (\<lambda>x. key_of ?on x = key_of ?on l) (rows df) of
              [] \<Rightarrow> [l @ [(?col, NaN)]]
            | ms \<Rightarrow> map (\<lambda>x. l @ filter (\<lambda>(c, v). c \<notin> set ?on) x) ms)"
      unfolding ml(2) by auto
    show ?thesis
    proof (cases "filter (\<lambda>x. key_of ?on x = key_of ?on l) (rows df)")
      case Nil
      with r have "r = l @ [(?col, NaN)]" by simp
      then show ?thesis using l by blast
    next
      case (Cons a ms)
      with r obtain x where x: "x \<in> set (a # ms)"
        and rx: "r = l @ filter (\<lambda>(c, v). c \<notin> set ?on) x"
        by auto
      from x have xin: "x \<in> set (rows df)" and match: "key_of ?on x = key_of ?on l"
        using Cons[symmetric] by auto
      from contract_value_cell[OF c xin] obtain v where
        "filter (\<lambda>(c, v). c \<notin> set ?on) x = [(?col, v)]" by blast
      then have "r = l @ [(?col, v)]" using rx by simp
      moreover have "\<not> (\<forall>x \<in> set (rows df). key_of ?on x \<noteq> key_of ?on l)"
        using xin match by blast
      ultimately show ?thesis using l by blast
    qed
  qed
  have rows_m_ex: "\<exists>v. l @ [(?col, v)] \<in> set (rows m)" if l: "l \<in> set (rows t)" for l
  proof (cases "filter (\<lambda>x. key_of ?on x = key_of ?on l) (rows df)")
    case Nil
    then have "l @ [(?col, NaN)] \<in> set (rows m)"
      unfolding ml(2) using l by force
    then show ?thesis by blast
  next
    case (Cons a ms)
    then have "a \<in> set (filter (\<lambda>x. key_of ?on x = key_of ?on l) (rows df))"
      by simp
    then have "a \<in> set (rows df)"
      by simp
    from contract_value_cell[OF c this] obtain v where
      v: "filter (\<lambda>(c, v). c \<notin> set ?on) a = [(?col, v)]" by blast
    have "l @ filter (\<lambda>(c, v). c \<notin> set ?on) a \<in> set (rows m)"
      unfolding ml(2) using l Cons by force
    then show ?thesis using v by auto
  qed
  show "columns (fillna (Num 1) m) = columns t @ [?col]"
    by (simp add: fillna_def ml(1))
  show "\<forall>r \<in> set (rows (fillna (Num 1) m)). \<exists>l \<in> set (rows t). \<exists>v.
           r = l @ [(?col, v)]
           \<and> ((\<forall>x \<in> set (rows df). key_of ?on x \<noteq> key_of ?on l) \<longrightarrow> v = Num 1)"
  proof
    fix r assume "r \<in> set (rows (fillna (Num 1) m))"
    then obtain r0 where r0: "r0 \<in> set (rows m)" and r: "r = ?fill r0"
      by (auto simp: fillna_def)
    from rows_m[OF r0] obtain l v where l: "l \<in> set (rows t)" and e: "r0 = l @ [(?col, v)]"
      and nm: "(\<forall>x \<in> set (rows df). key_of ?on x \<noteq> key_of ?on l) \<longrightarrow> v = NaN"
      by blast
    have "r = l @ [(?col, if v = NaN then Num 1 else v)]"
      unfolding r e by (rule fill_ext[OF l])
    moreover have "(\<forall>x \<in> set (rows df). key_of ?on x \<noteq> key_of ?on l)
                  \<longrightarrow> (if v = NaN then Num 1 else v) = Num 1"
      using nm by simp
    ultimately show "\<exists>l \<in> set (rows t). \<exists>v. r = l @ [(?col, v)]
           \<and> ((\<forall>x \<in> set (rows df). key_of ?on x \<noteq> key_of ?on l) \<longrightarrow> v = Num 1)"
      using l by blast
  qed
  then have shape: "\<exists>l \<in> set (rows t). \<exists>v. r = l @ [(?col, v)]"
    if "r \<in> set (rows (fillna (Num 1) m))" for r
    using that by blast
  show "well_formed (fillna (Num 1) m)"
    unfolding well_formed_def
  proof
    fix r assume "r \<in> set (rows (fillna (Num 1) m))"
    from shape[OF this] obtain l v where l: "l \<in> set (rows t)" and r: "r = l @ [(?col, v)]"
      by blast
    have "map fst l = columns t" using wf l by (simp add: well_formed_def)
    then show "map fst r = columns (fillna (Num 1) m)"
      by (simp add: r fillna_def ml(1))
  qed
  show "\<forall>l \<in> set (rows t). \<exists>v. l @ [(?col, v)] \<in> set (rows (fillna (Num 1) m))"
  proof
    fix l assume l: "l \<in> set (rows t)"
    from rows_m_ex[OF l] obtain v where mem: "l @ [(?col, v)] \<in> set (rows m)" by blast
    have fr: "rows (fillna (Num 1) m) = map ?fill (rows m)"
      by (simp add: fillna_def)
    have "?fill (l @ [(?col, v)]) \<in> set (rows (fillna (Num 1) m))"
      unfolding fr set_map using mem by (rule imageI)
    then show "\<exists>v. l @ [(?col, v)] \<in> set (rows (fillna (Num 1) m))"
      unfolding fill_ext[OF l] by blast
  qed
qed

lemma merge_factors_Cons_Inr:
  assumes "merge_factors fs dr t (f # rest) = (Inr t', fl')"
  obtains df m rest' where "dr \<noteq> []"
    and "generate_fn (rebind fs f) (features (rebind fs f)) (hd dr) (Some (last dr)) = Inr df"
    and "merge_left t df (merge_keys (rebind fs f)) = Inr m"
    and "merge_factors fs dr (fillna (Num 1) m) rest = (Inr t', rest')"
    and "fl' = rebind fs f # rest'"
  using assms
  by (auto simp: Let_def merge_keys_def split: if_splits sum.splits prod.splits)

lemma merge_factors_rows:
  assumes "merge_factors fs dr t fl = (Inr t', fl')"
    and "well_formed t" and "nan_free t" and "distinct (columns t @ map col_name fl)"
    and "\<forall>f \<in> set fl. \<forall>df.
           generate_fn (rebind fs f) (features (rebind fs f)) (hd dr) (Some (last dr)) = Inr df
           \<longrightarrow> obeys_contract (rebind fs f) df"
  shows "fl' = map (rebind fs) fl
     \<and> columns t' = columns t @ map col_name fl
     \<and> (\<forall>r \<in> set (rows t'). \<exists>l \<in> set (rows t). \<exists>ext. r = l @ ext)
     \<and> (\<forall>l \<in> set (rows t). \<exists>ext. l @ ext \<in> set (rows t'))
     \<and> (\<forall>f \<in> set fl'. set (merge_keys f) \<subseteq> set (columns t'))
     \<and> (\<forall>f \<in> set fl'. \<forall>df r.
           generate_fn f (features f) (hd dr) (Some (last dr)) = Inr df
           \<and> r \<in> set (rows t')
           \<and> (\<forall>x \<in> set (rows df). key_of (merge_keys f) x \<noteq> key_of (merge_keys f) r)
           \<longrightarrow> map_of r (col_name f) = Some (Num 1))"
  using assms
proof (induction fl arbitrary: t fl')
  case Nil
  then have t: "t' = t" and fl: "fl' = []" by simp_all
  have "\<exists>ext. l @ ext \<in> set (rows t)" if "l \<in> set (rows t)" for l
    using that by (intro exI[of _ "[]"]) simp
  moreover have "\<exists>l \<in> set (rows t). \<exists>ext. r = l @ ext" if "r \<in> set (rows t)" for r
    using that by (intro bexI[of _ r] exI[of _ "[]"]) simp_all
  ultimately show ?case unfolding t fl by simp
next
  case (Cons f rest)
  let ?f = "rebind fs f"
  from Cons.prems(1) obtain df m rest' where dr: "dr \<noteq> []"
    and g: "generate_fn ?f (features ?f) (hd dr) (Some (last dr)) = Inr df"
    and m: "merge_left t df (merge_keys ?f) = Inr m"
    and rec: "merge_factors fs dr (fillna (Num 1) m) rest = (Inr t', rest')"
    and fl': "fl' = ?f # rest'"
    by (rule merge_factors_Cons_Inr)
  let ?t1 = "fillna (Num 1) m" and ?col = "col_name ?f" and ?on = "merge_keys ?f"
  have c: "obeys_contract ?f df"
    using Cons.prems(5) g by simp
  have col: "?col = col_name f" by (simp add: rebind_col_name)
  have fresh: "?col \<notin> set (columns t)"
    using Cons.prems(4) by (auto simp: col)
  note st = merge_step[OF c fresh Cons.prems(2) Cons.prems(3) m]
  have d1: "distinct (columns ?t1 @ map col_name rest)"
    using Cons.prems(4) by (simp add: st(1) col)
  have c1: "\<forall>f \<in> set rest. \<forall>df.
           generate_fn (rebind fs f) (features (rebind fs f)) (hd dr) (Some (last dr)) = Inr df
           \<longrightarrow> obeys_contract (rebind fs f) df"
    using Cons.prems(5) by simp
  note ih = Cons.IH[OF rec st(2) nan_free_fillna d1 c1]
  have keys_l: "fst ` set l = set (columns t)" if "l \<in> set (rows t)" for l
    using Cons.prems(2) that by (metis well_formed_def set_map)
  have on_sub: "set ?on \<subseteq> set (columns t)"
    by (rule merge_left_fresh(3)[OF c fresh m])
  have prefix: "\<exists>l \<in> set (rows t). \<exists>v ext. r = l @ (?col, v) # ext
           \<and> ((\<forall>x \<in> set (rows df). key_of ?on x \<noteq> key_of ?on l) \<longrightarrow> v = Num 1)"
    if "r \<in> set (rows t')" for r
  proof -
    from ih that obtain l1 ext where l1: "l1 \<in> set (rows ?t1)" and r: "r = l1 @ ext"
      by blast
    from st(3) l1 obtain l v where l: "l \<in> set (rows t)" and e: "l1 = l @ [(?col, v)]"
      and nm: "(\<forall>x \<in> set (rows df). key_of ?on x \<noteq> key_of ?on l) \<longrightarrow> v = Num 1"
      by blast
    have "r = l @ (?col, v) # ext" by (simp add: r e)
    then show ?thesis using l nm by blast
  qed
  have p1: "fl' = map (rebind fs) (f # rest)"
    using ih fl' by simp
  have p2: "columns t' = columns t @ map col_name (f # rest)"
    using ih by (simp add: st(1) col)
  have p3: "\<forall>r \<in> set (rows t'). \<exists>l \<in> set (rows t). \<exists>ext. r = l @ ext"
    using prefix by blast
  have p4: "\<forall>l \<in> set (rows t). \<exists>ext. l @ ext \<in> set (rows t')"
  proof
    fix l assume "l \<in> set (rows t)"
    with st(4) obtain v where "l @ [(?col, v)] \<in> set (rows ?t1)" by blast
    with ih obtain ext where "(l @ [(?col, v)]) @ ext \<in> set (rows t')" by blast
    then have "l @ ((?col, v) # ext) \<in> set (rows t')" by simp
    then show "\<exists>ext. l @ ext \<in> set (rows t')" by blast
  qed
  have p5: "map_of r (col_name f0) = Some (Num 1)"
    if f0: "f0 \<in> set fl'"
      and g0: "generate_fn f0 (features f0) (hd dr) (Some (last dr)) = Inr df0"
      and r: "r \<in> set (rows t')"
      and nomatch: "\<forall>x \<in> set (rows df0). key_of (merge_keys f0) x \<noteq> key_of (merge_keys f0) r"
    for f0 df0 r
  proof (cases "f0 = ?f")
    case True
    then have df0: "df0 = df" using g g0 by simp
    from prefix[OF r] obtain l v ext where l: "l \<in> set (rows t)" and e: "r = l @ (?col, v) # ext"
      and nm: "(\<forall>x \<in> set (rows df). key_of ?on x \<noteq> key_of ?on l) \<longrightarrow> v = Num 1"
      by blast
    have "key_of ?on r = key_of ?on l"
      unfolding e using on_sub keys_l[OF l] by (intro key_of_append) simp
    then have "v = Num 1"
      using nm nomatch by (simp add: True df0)
    moreover have "?col \<notin> fst ` set l"
      using fresh keys_l[OF l] by simp
    ultimately show ?thesis
      unfolding True e by (simp add: map_of_append_right del: map_of_append)
  next
    case False
    then have "f0 \<in> set rest'" using f0 fl' by simp
    then show ?thesis using ih g0 r nomatch by blast
  qed
  have p6: "\<forall>f0 \<in> set fl'. set (merge_keys f0) \<subseteq> set (columns t')"
  proof
    fix f0 assume "f0 \<in> set fl'"
    then consider "f0 = ?f" | "f0 \<in> set rest'" using fl' by auto
    then show "set (merge_keys f0) \<subseteq> set (columns t')"
    proof cases
      case 1
      then show ?thesis using on_sub p2 by auto
    next
      case 2
      then show ?thesis using ih by blast
    qed
  qed
  show ?case using p1 p2 p3 p4 p5 p6 by blast
qed

lemma derive_nth:
  assumes d: "derive names t = Inr t'"
  shows "length (rows t') = length (rows t)"
    and "i < length (rows t) \<Longrightarrow>
           \<exists>p v. rows t' ! i =
             AList.update ''value'' v (AList.update ''total_factor'' p (rows t ! i))"
proof -
  from d obtain ps vs' where ps: "sequence (map (row_prod names) (rows t)) = Inr ps"
    and vs': "sequence (map (row_mul ''total_factor'' ''base_amount'')
                 (rows (set_column ''total_factor'' ps t))) = Inr vs'"
    and t': "t' = set_column ''value'' vs' (set_column ''total_factor'' ps t)"
    by (auto simp: derive_def Let_def bind_err_Inr_iff split: list.splits if_splits)
  have lps: "length ps = length (rows t)"
    using sequence_Inr_length[OF ps] by simp
  have rows1: "rows (set_column ''total_factor'' ps t) =
      map (\<lambda>i. AList.update ''total_factor'' (ps ! i) (rows t ! i)) [0..<length (rows t)]"
    using lps by (auto simp: set_column_def intro!: nth_equalityI)
  have lvs: "length vs' = length (rows t)"
    using sequence_Inr_length[OF vs'] by (simp add: rows1)
  have rows2: "rows t' =
      map (\<lambda>i. AList.update ''value'' (vs' ! i)
                  (AList.update ''total_factor'' (ps ! i) (rows t ! i))) [0..<length (rows t)]"
    unfolding t' using lvs lps by (auto simp: set_column_def rows1 intro!: nth_equalityI)
  show "length (rows t') = length (rows t)" by (simp add: rows2)
  show "\<exists>p v. rows t' ! i =
             AList.update ''value'' v (AList.update ''total_factor'' p (rows t ! i))"
    if "i < length (rows t)"
    using that by (auto simp: rows2)
qed

text \<open>
  The tables that LinearTrend and WeekdayFactor generate obey the factor contract.
\<close>

lemma datetime_index_empty: "e < start \<Longrightarrow> get_datetime_index start (Some e) = []"
  by (simp add: get_datetime_index_def)

lemma linear_trend_generate_empty: "e < start \<Longrightarrow> linear_trend_generate lt start (Some e) = Inl IndexError"
  by (simp add: linear_trend_generate_def datetime_index_empty)

lemma linear_trend_global_contract:
  assumes init: "linear_trend_init (Some c) (Some off) None None name = Inr lt"
    and name: "name \<noteq> ''date''"
    and gen: "generate_fn (linear_trend_factor lt) fs start (Some e) = Inr df"
  shows "obeys_contract (linear_trend_factor lt) df"
proof -
  have lt: "lt = \<lparr>col_name = name, features = [], date_col_name = ''date'', apply_to_all = False,
          coef = Some c, offset = Some off, lt_feature = None, lt_feature_values = None\<rparr>"
    using init by (simp add: linear_trend_init_global)
  have le: "start \<le> e"
    using gen linear_trend_generate_empty[of e start lt]
    by (cases "start \<le> e") (auto simp: linear_trend_factor_def)
  have "linear_trend_generate lt start (Some e) =
      Inr \<lparr>columns = [date_col_name lt, col_name lt],
          rows = map (\<lambda>t. [(date_col_name lt, Date (start + int t)),
                           (col_name lt, Num (c / real (nat (e - start + 1)) * real t + 1 + off))])
                   [0..<nat (e - start + 1)]\<rparr>"
    using name le by (intro linear_trend_generate_global) (simp_all add: lt truthy_dict_def)
  then have "df = \<lparr>columns = [''date'', name],
          rows = map (\<lambda>t. [(''date'', Date (start + int t)),
                           (name, Num (c / real (nat (e - start + 1)) * real t + 1 + off))])
                   [0..<nat (e - start + 1)]\<rparr>"
    using gen by (simp add: linear_trend_factor_def lt)
  then show ?thesis
    using name
    by (auto simp: obeys_contract_def well_formed_def merge_keys_def linear_trend_factor_def lt)
qed

lemma linear_trend_feature_contract:
  assumes init: "linear_trend_init None None (Some feat) (Some fv) name = Inr lt"
    and feat: "feat \<noteq> []" and fv: "fv \<noteq> []"
    and hyg: "distinct [''date'', feat, ''coef'', ''offset'', name]"
    and gen: "generate_fn (linear_trend_factor lt) fs start (Some e) = Inr df"
  shows "obeys_contract (linear_trend_factor lt) df"
proof -
  from linear_trend_init_per_feature[OF init feat]
  have complete: "\<forall>v \<in> set (map snd fv). \<not> incomplete v"
    and lt: "lt = \<lparr>col_name = name, features = [(feat, map fst fv)], date_col_name = ''date'',
               apply_to_all = False, coef = None, offset = None, lt_feature = Some feat,
               lt_feature_values = Some fv\<rparr>"
    by simp_all
  have le: "start \<le> e"
    using gen linear_trend_generate_empty[of e start lt]
    by (cases "start \<le> e") (auto simp: linear_trend_factor_def)
  have "linear_trend_generate lt start (Some e) =
     Inr \<lparr>columns = [''date'', feat, name],
          rows = map (\<lambda>(d, k, v). [(''date'', Date d), (feat, Label k),
                    (name, Num (the (map_of v ''coef'') / real (nat (e - start + 1))
                                        * real_of_int (d - start) + 1 + the (map_of v ''offset'')))])
                  (List.product [start..e] fv)\<rparr>"
    using linear_trend_generate_per_feature[of lt feat fv start e] fv complete hyg le
    by (simp add: lt)
  then have "df = \<lparr>columns = [''date'', feat, name],
          rows = map (\<lambda>(d, k, v). [(''date'', Date d), (feat, Label k),
                    (name, Num (the (map_of v ''coef'') / real (nat (e - start + 1))
                                        * real_of_int (d - start) + 1 + the (map_of v ''offset'')))])
                  (List.product [start..e] fv)\<rparr>"
    using gen by (simp add: linear_trend_factor_def lt)
  then show ?thesis
    using hyg
    by (auto simp: obeys_contract_def well_formed_def merge_keys_def linear_trend_factor_def lt)
qed

lemma weekday_factor_contract:
  assumes init: "weekday_factor_init fvo name scale = Inr w"
    and hyg: "distinct [''date'', ''weekday'', name]"
    and gen: "generate_fn (weekday_factor_factor w) fs start (Some e) = Inr df"
  shows "obeys_contract (weekday_factor_factor w) df"
proof -
  from init have w: "date_col_name w = ''date''" "col_name w = name" "features w = []"
    by (auto simp: weekday_factor_init_def base_factor_init_cases declared_def Let_def)
  have "weekday_factor_generate w start (Some e) =
         Inr \<lparr>columns = [date_col_name w, col_name w],
              rows = map (\<lambda>d. [(date_col_name w, Date d),
                               (col_name w, Num (weekday_value w (dayofweek d)))]) [start..e - 1]\<rparr>"
    using hyg by (intro weekday_factor_generate_rows) (simp add: w)
  then have "df = \<lparr>columns = [''date'', name],
              rows = map (\<lambda>d. [(''date'', Date d),
                               (name, Num (weekday_value w (dayofweek d)))]) [start..e - 1]\<rparr>"
    using gen by (simp add: weekday_factor_factor_def w)
  then show ?thesis
    using hyg
    by (auto simp: obeys_contract_def well_formed_def merge_keys_def weekday_factor_factor_def w)
qed

text \<open>
  Claim C2. Let the engine's labels (\<open>date\<close>, the feature names, \<open>base_amount\<close>, the
  factors' column names, \<open>total_factor\<close>, \<open>value\<close>) be pairwise different, and let every
  factor's table obey the factor contract. Then, in the table that \<open>Generator.generate\<close>
  returns, every row for which the table generated by a factor holds no row with the
  same date and the same values of that factor's features carries exactly 1 in that
  factor's column; and every row of the skeleton table (every date with every
  combination of declared feature values, covered by a factor or not) appears in the
  returned table. The factors are taken with the features they hold when they are
  generated, which are also the factors of the engine after the call.
\<close>

theorem generate_neutral_fill:
  assumes gen: "generate g = (Inr t, g')" and dr: "engine_date_range g = Some dr"
    and hyg: "distinct (''date'' # map fst (engine_features g) @ [''base_amount'']
                @ map col_name (factors g) @ [''total_factor'', ''value''])"
    and contract: "\<forall>f \<in> set (bound_factors g). \<forall>df.
           generate_fn f (features f) (hd dr) (Some (last dr)) = Inr df \<longrightarrow> obeys_contract f df"
  shows "factors g' = bound_factors g
     \<and> (\<forall>f \<in> set (bound_factors g). \<forall>df r.
           generate_fn f (features f) (hd dr) (Some (last dr)) = Inr df
           \<and> r \<in> set (rows t)
           \<and> (\<forall>x \<in> set (rows df). key_of (merge_keys f) x \<noteq> key_of (merge_keys f) r)
           \<longrightarrow> map_of r (col_name f) = Some (Num 1))
     \<and> (\<forall>s \<in> set (rows (skeleton dr (engine_features g))). \<exists>r \<in> set (rows t).
           \<forall>c \<in> set (columns (skeleton dr (engine_features g))). map_of r c = map_of s c)"
proof -
  let ?fs = "engine_features g" and ?names = "map col_name (factors g)"
  let ?bt = "base_table dr ?fs (base_value g)"
  from gen obtain dr' t2 fs' where dr': "engine_date_range g = Some dr'"
    and m: "merge_factors ?fs dr' (base_table dr' ?fs (base_value g)) (factors g) = (Inr t2, fs')"
    and d: "derive ?names t2 = Inr t"
    and g': "g' = g\<lparr>factors := fs', ts := Some t\<rparr>"
    by (rule generate_Inr_cases)
  have [simp]: "dr' = dr" using dr dr' by simp
  have base_fresh: "''base_amount'' \<notin> set (''date'' # map fst ?fs)"
    using hyg by auto
  note bt = base_table_fresh[OF base_fresh, of dr "base_value g"]
  have wf: "well_formed ?bt" by (rule well_formed_base_table[OF base_fresh])
  have nf: "nan_free ?bt" by (rule nan_free_base_table)
  have dist: "distinct (columns ?bt @ ?names)"
    using hyg by (simp add: bt(1))
  have c': "\<forall>f \<in> set (factors g). \<forall>df.
           generate_fn (rebind ?fs f) (features (rebind ?fs f)) (hd dr) (Some (last dr)) = Inr df
           \<longrightarrow> obeys_contract (rebind ?fs f) df"
    using contract by (simp add: bound_factors_def)
  note mr = merge_factors_rows[OF m[simplified] wf nf dist c']
  have fs': "fs' = bound_factors g"
    and cols: "columns t2 = columns ?bt @ ?names"
    and ex: "\<forall>l \<in> set (rows ?bt). \<exists>ext. l @ ext \<in> set (rows t2)"
    and keys: "\<forall>f \<in> set fs'. set (merge_keys f) \<subseteq> set (columns t2)"
    and fill: "\<forall>f \<in> set fs'. \<forall>df r.
           generate_fn f (features f) (hd dr) (Some (last dr)) = Inr df
           \<and> r \<in> set (rows t2)
           \<and> (\<forall>x \<in> set (rows df). key_of (merge_keys f) x \<noteq> key_of (merge_keys f) r)
           \<longrightarrow> map_of r (col_name f) = Some (Num 1)"
    using mr[THEN conjunct1] mr[THEN conjunct2, THEN conjunct1]
      mr[THEN conjunct2, THEN conjunct2, THEN conjunct2, THEN conjunct1]
      mr[THEN conjunct2, THEN conjunct2, THEN conjunct2, THEN conjunct2, THEN conjunct1]
      mr[THEN conjunct2, THEN conjunct2, THEN conjunct2, THEN conjunct2, THEN conjunct2]
    unfolding bound_factors_def by - assumption+
  have nt: "''total_factor'' \<notin> set (columns t2)" "''value'' \<notin> set (columns t2)"
    using hyg unfolding cols bt(1) by simp_all
  have not_derived: "c \<notin> {''total_factor'', ''value''}" if "c \<in> set (columns t2)" for c
    using that nt by auto
  note dn = derive_nth[OF d]
  have other: "map_of (AList.update ''value'' v (AList.update ''total_factor'' p r0)) c = map_of r0 c"
    if "c \<notin> {''total_factor'', ''value''}" for v p r0 c
    using that by (simp add: update_conv')
  have part1: "map_of r (col_name f) = Some (Num 1)"
    if f: "f \<in> set (bound_factors g)"
      and gf: "generate_fn f (features f) (hd dr) (Some (last dr)) = Inr df"
      and r: "r \<in> set (rows t)"
      and nomatch: "\<forall>x \<in> set (rows df). key_of (merge_keys f) x \<noteq> key_of (merge_keys f) r"
    for f df r
  proof -
    from r obtain i where i: "i < length (rows t2)" and ri: "r = rows t ! i"
      using dn(1) by (metis in_set_conv_nth)
    from dn(2)[OF i] obtain p v where
      upd: "r = AList.update ''value'' v (AList.update ''total_factor'' p (rows t2 ! i))"
      using ri by blast
    let ?m = "rows t2 ! i"
    have min: "?m \<in> set (rows t2)" using i by simp
    have fin: "f \<in> set fs'" using f fs' by simp
    have "key_of (merge_keys f) r = key_of (merge_keys f) ?m"
      unfolding key_of_def upd
      using keys fin not_derived by (intro map_cong refl other) blast
    then have "\<forall>x \<in> set (rows df). key_of (merge_keys f) x \<noteq> key_of (merge_keys f) ?m"
      using nomatch by simp
    with fill fin gf min have one: "map_of ?m (col_name f) = Some (Num 1)" by blast
    have colin: "col_name f \<in> set (columns t2)"
      using f unfolding cols bound_factors_def by (auto simp: rebind_col_name)
    have "map_of r (col_name f) = map_of ?m (col_name f)"
      unfolding upd by (rule other[OF not_derived[OF colin]])
    then show ?thesis using one by simp
  qed
  have part2: "\<exists>r \<in> set (rows t). \<forall>c \<in> set (columns (skeleton dr ?fs)). map_of r c = map_of s c"
    if s: "s \<in> set (rows (skeleton dr ?fs))" for s
  proof -
    have "s @ [(''base_amount'', Num (base_value g))] \<in> set (rows ?bt)"
      using s by (simp add: bt(2))
    with ex obtain ext where "(s @ [(''base_amount'', Num (base_value g))]) @ ext \<in> set (rows t2)"
      by blast
    then obtain i where i: "i < length (rows t2)"
      and mi: "rows t2 ! i = s @ (''base_amount'', Num (base_value g)) # ext"
      by (auto simp: in_set_conv_nth)
    from dn(2)[OF i] obtain p v where
      upd: "rows t ! i = AList.update ''value'' v (AList.update ''total_factor'' p (rows t2 ! i))"
      by blast
    have rin: "rows t ! i \<in> set (rows t)" using i dn(1) by simp
    have "map_of (rows t ! i) c = map_of s c" if c: "c \<in> set (columns (skeleton dr ?fs))" for c
    proof -
      have sk: "columns (skeleton dr ?fs) = ''date'' # map fst ?fs"
        by (simp add: skeleton_def)
      have "c \<in> set (columns t2)" using c unfolding cols bt(1) sk by auto
      then have "map_of (rows t ! i) c = map_of (rows t2 ! i) c"
        unfolding upd by (intro other not_derived)
      moreover have "c \<in> fst ` set s"
        using skeleton_row_keys[OF s] c unfolding sk by (metis set_map)
      ultimately show ?thesis
        unfolding mi by (simp add: map_of_append_left del: map_of_append)
    qed
    then show ?thesis using rin by blast
  qed
  have "factors g' = bound_factors g" by (simp add: g' fs')
  then show ?thesis using part1 part2 by blast
qed

theorem generate_neutral_fill_witness:
  "fst (generate product_engine_example) = Inr product_table_example
   \<and> map_of (rows product_table_example ! 1) ''product'' = Some (Label ''Yoga Mat'')
   \<and> map_of (rows product_table_example ! 1) ''product_trend'' = Some (Num 1)
   \<and> map_of (rows product_table_example ! 3) ''date'' = Some (Date 18265)
   \<and> map_of (rows product_table_example ! 3) ''weekend_trend_factor'' = Some (Num 1)"
proof -
  let ?g = product_engine_example
  let ?lf = "linear_trend_factor product_trend_example"
  let ?wf = "weekday_factor_factor weekday_example"
  let ?tt = "\<lparr>columns = [''date'', ''product'', ''product_trend''],
      rows = [[(''date'', Date 18264), (''product'', Label ''winter jacket''), (''product_trend'', Num 2)],
              [(''date'', Date 18264), (''product'', Label ''basketball top''), (''product_trend'', Num 1)],
              [(''date'', Date 18265), (''product'', Label ''winter jacket''), (''product_trend'', Num (5 / 2))],
              [(''date'', Date 18265), (''product'', Label ''basketball top''), (''product_trend'', Num 2)]]\<rparr>"
  let ?wt = "\<lparr>columns = [''date'', ''weekend_trend_factor''],
      rows = [[(''date'', Date 18264), (''weekend_trend_factor'', Num (23 / 20))]]\<rparr>"
  have gen: "generate ?g = (Inr product_table_example, snd (generate ?g))"
    using product_engine_generate by (metis prod.collapse)
  have dr: "engine_date_range ?g = Some [18264, 18265]"
    by (simp add: product_engine_example_def)
  have hyg: "distinct (''date'' # map fst (engine_features ?g) @ [''base_amount'']
                @ map col_name (factors ?g) @ [''total_factor'', ''value''])"
    by (simp add: product_engine_example_def linear_trend_factor_def weekday_factor_factor_def
        product_trend_example_def weekday_example_def)
  have bound: "bound_factors ?g = [?lf, ?wf]"
    by (simp add: bound_factors_def product_engine_example_def rebind_def linear_trend_factor_def
        weekday_factor_factor_def product_trend_example_def weekday_example_def)
  have tgen: "generate_fn ?lf (features ?lf) (hd [18264, 18265]) (Some (last [18264, 18265])) = Inr ?tt"
    by (simp add: linear_trend_factor_def product_trend_example_def linear_trend_generate_def
        get_datetime_index_def upto_rec1 truthy_dict_def label_of_def trend_frame_def get_item_def
        get_cartesian_product_def to_frame_def get_factor_col_def cell_date_def cell_num_def
        set_column_def add_label_def drop_columns_def)
  have wgen: "generate_fn ?wf (features ?wf) (hd [18264, 18265]) (Some (last [18264, 18265])) = Inr ?wt"
    by (simp add: weekday_factor_factor_def weekday_example_def default_factor_values_def
        weekday_factor_generate_def get_datetime_index_def upto_rec1 to_frame_def set_column_def
        add_label_def drop_columns_def select_rows_def cell_date_def get_item_def dayofweek_def
        weekday_value_def)
  have tcon: "obeys_contract ?lf ?tt"
    by (simp add: obeys_contract_def well_formed_def merge_keys_def linear_trend_factor_def
        product_trend_example_def)
  have wcon: "obeys_contract ?wf ?wt"
    by (simp add: obeys_contract_def well_formed_def merge_keys_def weekday_factor_factor_def
        weekday_example_def)
  have contract: "\<forall>f \<in> set (bound_factors ?g). \<forall>df.
      generate_fn f (features f) (hd [18264, 18265]) (Some (last [18264, 18265])) = Inr df
      \<longrightarrow> obeys_contract f df"
    unfolding bound using tgen wgen tcon wcon by auto
  note fill = generate_neutral_fill[OF gen dr hyg contract, THEN conjunct2, THEN conjunct1]
  have r1: "rows product_table_example ! 1 \<in> set (rows product_table_example)"
    and r3: "rows product_table_example ! 3 \<in> set (rows product_table_example)"
    by (simp_all add: product_table_example_def)
  have n1: "\<forall>x \<in> set (rows ?tt). key_of (merge_keys ?lf) x
              \<noteq> key_of (merge_keys ?lf) (rows product_table_example ! 1)"
    by (simp add: key_of_def merge_keys_def linear_trend_factor_def product_trend_example_def
        product_table_example_def)
  have n3: "\<forall>x \<in> set (rows ?wt). key_of (merge_keys ?wf) x
              \<noteq> key_of (merge_keys ?wf) (rows product_table_example ! 3)"
    by (simp add: key_of_def merge_keys_def weekday_factor_factor_def weekday_example_def
        product_table_example_def)
  have "?lf \<in> set (bound_factors ?g)" "?wf \<in> set (bound_factors ?g)"
    by (simp_all add: bound)
  with fill tgen wgen r1 r3 n1 n3
  have "map_of (rows product_table_example ! 1) (col_name ?lf) = Some (Num 1)"
    and "map_of (rows product_table_example ! 3) (col_name ?wf) = Some (Num 1)"
    by blast+
  then have "map_of (rows product_table_example ! 1) ''product_trend'' = Some (Num 1)"
    and "map_of (rows product_table_example ! 3) ''weekend_trend_factor'' = Some (Num 1)"
    by (simp_all add: linear_trend_factor_def weekday_factor_factor_def product_trend_example_def
        weekday_example_def)
  moreover have "map_of (rows product_table_example ! 1) ''product'' = Some (Label ''Yoga Mat'')"
    and "map_of (rows product_table_example ! 3) ''date'' = Some (Date 18265)"
    by (simp_all add: product_table_example_def)
  ultimately show ?thesis using product_engine_generate by simp
qed




text \<open>
  Claim C6. Every factor of the engine being deterministic (its \<open>generate\<close> a function of
  the features it holds and of the dates), a second call of \<open>Generator.generate\<close> right
  after the first returns the same result, table for table (or the same exception), and
  leaves the engine as the first call left it: the rebinding of the features of the
  \<open>apply_to_all\<close> factors in the first call does not change what the second call computes.
\<close>

theorem generate_twice_same_table:
  "fst (generate (snd (generate g))) = fst (generate g)
   \<and> snd (generate (snd (generate g))) = snd (generate g)"
  by (simp add: generate_idem)

theorem generate_twice_same_table_witness:
  "fst (generate (snd (generate product_engine_example))) = Inr product_table_example"
  using generate_twice_same_table[of product_engine_example] product_engine_generate
  by simp

end
